theory Spec2Isabelle
  imports Main "HOL-Library.Word" "HOL-Library.Char_ord" "HOL-Library.List_Lexorder"
begin

section \<open>Errors and observable effects\<close>

text \<open>
  Go's \<^verbatim>\<open>error\<close> values, one constructor per way the modelled code builds or
  receives one. \<^verbatim>\<open>Errorf\<close> keeps the format string and the rendered string
  arguments of an \<^verbatim>\<open>fmt.Errorf\<close> without \<^verbatim>\<open>%w\<close>; \<^verbatim>\<open>Wrapf\<close> is an
  \<^verbatim>\<open>fmt.Errorf\<close> whose format ends in \<^verbatim>\<open>%w\<close>, so the wrapped error stays
  reachable for \<^verbatim>\<open>errors.Is\<close> and \<^verbatim>\<open>errors.As\<close>. \<^verbatim>\<open>Opaque\<close> stands for
  an error of a collaborator (transport, survey, browser).
\<close>

datatype error =
    New string
  | Errorf string "string list"
  | Wrapf string "string list" error
  | FlagErrorf string
  | SilentError
  | errNoCodespaces
  | AcceptPermissionsRequiredError string
  | Canceled
  | Opaque string

text \<open>\<^verbatim>\<open>errors.Is(err, context.Canceled)\<close>: walks the chain of wrapped errors.\<close>

fun errors_Is_Canceled :: "error \<Rightarrow> bool" where
  "errors_Is_Canceled Canceled = True"
| "errors_Is_Canceled (Wrapf f args e) = errors_Is_Canceled e"
| "errors_Is_Canceled _ = False"

text \<open>
  \<^verbatim>\<open>errors.As(err, &aerr)\<close> for \<^verbatim>\<open>api.AcceptPermissionsRequiredError\<close>: the
  first such error in the chain, as its \<^verbatim>\<open>AllowPermissionsURL\<close>.
\<close>

fun errors_As_AcceptPermissionsRequiredError :: "error \<Rightarrow> string option" where
  "errors_As_AcceptPermissionsRequiredError (AcceptPermissionsRequiredError url) = Some url"
| "errors_As_AcceptPermissionsRequiredError (Wrapf f args e) =
     errors_As_AcceptPermissionsRequiredError e"
| "errors_As_AcceptPermissionsRequiredError _ = None"

section \<open>Data model\<close>

text \<open>
  Modelled from the spec: the records of \<^verbatim>\<open>internal/codespaces/api\<close> are not among
  the sources; each record below has the fields the modelled functions read or write.
  \<^verbatim>\<open>Repository.FullName\<close>, \<^verbatim>\<open>Owner.Login\<close> and the \<^verbatim>\<open>GitStatus\<close> fields
  of a codespace are flattened into the record.
\<close>

record Codespace =
  Name :: string
  DisplayName :: string
  CreatedAt :: string
  LastUsedAt :: string
  State :: string
  PendingOperation :: bool
  PendingOperationDisabledReason :: string
  Repository_FullName :: string
  Owner_Login :: string
  GitStatus_Ref :: string
  GitStatus_HasUncommitedChanges :: bool
  GitStatus_HasUnpushedChanges :: bool
  IdleTimeoutNotice :: string

text \<open>
  Modelled from the spec: the constant \<^verbatim>\<open>api.CodespaceStateRebuilding\<close> is not among
  the sources; the spec names the lifecycle state Rebuilding.
\<close>

definition CodespaceStateRebuilding :: string where
  "CodespaceStateRebuilding = ''Rebuilding''"

record Machine =
  Name :: string
  DisplayName :: string
  PrebuildAvailability :: string

record DevContainerEntry =
  Path :: string

record Repository =
  ID :: int
  DefaultBranch :: string

record User =
  Login :: string
  Type :: string

record CreateCodespaceParams =
  RepositoryID :: int
  Branch :: string
  Machine :: string
  Location :: string
  VSCSTarget :: string
  VSCSTargetURL :: string
  IdleTimeoutMinutes :: int
  RetentionPeriodMinutes :: "int option"
  DevContainerPath :: string
  PermissionsOptOut :: bool

datatype stream = Out | ErrOut | ErrLogger

datatype fmtarg = Str string | ErrArg error

text \<open>The questions \<^verbatim>\<open>ask\<close> is called with: name, message, then default or options.\<close>

datatype question =
    Input string string string
  | Select string string "string list"
  | Confirm string string

text \<open>
  Everything a run does that a caller or a test double can observe, in program order:
  progress indicator calls, output, calls of \<^verbatim>\<open>ask\<close>, calls of the control-plane
  client, of the browser and of the Live Share session, and the poller's cancellation.
\<close>

datatype event =
    StartProgressIndicatorWithLabel string
  | StopProgressIndicator
  | Fprintln stream "string list"
  | Fprintf stream string "fmtarg list"
  | Ask question
  | Browse string
  | Call_GetCodespace string bool
  | Call_GetOrgMemberCodespace string string string
  | Call_ListCodespaces string string
  | Call_DeleteCodespace string string string
  | Call_CreateCodespace CreateCodespaceParams
  | Call_GetRepository string
  | Call_GetCodespaceBillableOwner string
  | Call_GetCodespacesMachines int string string string
  | Call_ListDevContainers int string int
  | Call_ConnectToLiveshare string
  | Session_RebuildContainer bool
  | Session_Close
  | stopPolling

section \<open>Post-create states\<close>

text \<open>
  Modelled from the spec: the type \<^verbatim>\<open>codespaces.PostCreateState\<close> and its status
  constants live in \<^verbatim>\<open>internal/codespaces\<close>, which is not among the sources.
  The spec gives a task name and a status that is Running or terminal.
\<close>

datatype PostCreateStateStatus = PostCreateStateRunning | PostCreateStateTerminal

record PostCreateState =
  Name :: string
  Status :: PostCreateStateStatus

text \<open>The zero value \<^verbatim>\<open>codespaces.PostCreateState{}\<close>: only its empty name is read.\<close>

definition PostCreateState_zero :: PostCreateState where
  "PostCreateState_zero = \<lparr>PostCreateState.Name = [], Status = PostCreateStateTerminal\<rparr>"

text \<open>
  The variables \<^verbatim>\<open>showStatus\<close> declares and its \<^verbatim>\<open>poller\<close> closure captures.
  \<^verbatim>\<open>finishedStates\<close> is the Go map \<^verbatim>\<open>map[string]bool\<close>.
\<close>

record showStatus_vars =
  lastState :: PostCreateState
  breakNextState :: bool
  finishedStates :: "string \<rightharpoonup> bool"

definition showStatus_init :: showStatus_vars where
  "showStatus_init =
     \<lparr>lastState = PostCreateState_zero, breakNextState = False, finishedStates = Map.empty\<rparr>"

text \<open>
  The \<^verbatim>\<open>for _, state := range states\<close> loop of the closure. The result is the value
  of \<^verbatim>\<open>inProgress\<close> when the loop ends, the captured variables, and the progress
  indicator calls in order. A \<^verbatim>\<open>break\<close> ends the recursion; \<^verbatim>\<open>continue\<close> and
  falling through the loop body go on with the rest of the list.
\<close>

fun poller_loop :: "PostCreateState list \<Rightarrow> showStatus_vars \<Rightarrow> bool \<times> showStatus_vars \<times> event list" where
  "poller_loop [] v = (False, v, [])"
| "poller_loop (state # states) v =
     (if finishedStates v (PostCreateState.Name state) \<noteq> None then poller_loop states v
      else if PostCreateState.Name state \<noteq> PostCreateState.Name (lastState v) then
        (if Status state = PostCreateStateRunning
         then (True, v\<lparr>lastState := state\<rparr>,
               [StartProgressIndicatorWithLabel (PostCreateState.Name state)])
         else (case poller_loop states
                      (v\<lparr>finishedStates := (finishedStates v)(PostCreateState.Name state \<mapsto> True)\<rparr>) of
                 (inProgress, v', es) \<Rightarrow>
                   (inProgress, v',
                    StartProgressIndicatorWithLabel (PostCreateState.Name state)
                      # StopProgressIndicator # es)))
      else
        (if Status state = PostCreateStateRunning
         then (True, v, [])
         else (case poller_loop states
                      (v\<lparr>finishedStates := (finishedStates v)(PostCreateState.Name state \<mapsto> True),
                         lastState := PostCreateState_zero\<rparr>) of
                 (inProgress, v', es) \<Rightarrow> (inProgress, v', StopProgressIndicator # es))))"

text \<open>One call of the closure \<^verbatim>\<open>poller\<close>: the loop, then the stop logic.\<close>

definition poller :: "showStatus_vars \<Rightarrow> PostCreateState list \<Rightarrow> showStatus_vars \<times> event list" where
  "poller v states =
     (case poller_loop states v of
        (inProgress, v', es) \<Rightarrow>
          if \<not> inProgress then
            (if breakNextState v' then (v', es @ [stopPolling])
             else (v'\<lparr>breakNextState := True\<rparr>, es))
          else (v', es))"

text \<open>
  Modelled from the spec: \<^verbatim>\<open>codespaces.PollPostCreateStates\<close> is not among the
  sources. It calls the poller once per poll pass with the states the remote reports,
  until the context is cancelled, and then returns the context's error. Here the passes
  are a finite script; a script that runs out stands for the caller cancelling the
  context from outside, which also ends the polling with \<^verbatim>\<open>context.Canceled\<close>.
  The result is the error, the captured variables, the events, and the passes that
  were never polled.
\<close>

fun PollPostCreateStates ::
  "showStatus_vars \<Rightarrow> PostCreateState list list \<Rightarrow>
     error \<times> showStatus_vars \<times> event list \<times> PostCreateState list list" where
  "PollPostCreateStates v [] = (Canceled, v, [], [])"
| "PollPostCreateStates v (states # rest) =
     (case poller v states of
        (v', es) \<Rightarrow>
          if stopPolling \<in> set es then (Canceled, v', es, rest)
          else (case PollPostCreateStates v' rest of
                  (err, v'', es', rest') \<Rightarrow> (err, v'', es @ es', rest')))"

text \<open>\<^verbatim>\<open>showStatus\<close>: \<^verbatim>\<open>None\<close> is the \<^verbatim>\<open>nil\<close> error.\<close>

definition showStatus :: "PostCreateState list list \<Rightarrow> error option \<times> event list" where
  "showStatus passes =
     (case PollPostCreateStates showStatus_init passes of
        (err, v, es, rest) \<Rightarrow>
          if errors_Is_Canceled err \<and> breakNextState v then (None, es)
          else (Some (Wrapf ''failed to poll state changes from codespace: %w'' [] err), es))"

text \<open>
  The closure fed a whole sequence of passes, whether or not it has asked to stop:
  the captured variables after the last pass and the events of every pass.
\<close>

fun feed :: "showStatus_vars \<Rightarrow> PostCreateState list list \<Rightarrow> showStatus_vars \<times> event list" where
  "feed v [] = (v, [])"
| "feed v (states # rest) =
     (case poller v states of
        (v', es) \<Rightarrow> (case feed v' rest of (v'', es') \<Rightarrow> (v'', es @ es')))"

text \<open>The task names reported, that is, handed to the progress indicator, in order.\<close>

fun reported :: "event list \<Rightarrow> string list" where
  "reported [] = []"
| "reported (StartProgressIndicatorWithLabel n # es) = n # reported es"
| "reported (e # es) = reported es"

section \<open>The application and its collaborators\<close>

text \<open>
  A run's result with the events it caused: \<^verbatim>\<open>Inl\<close> is a non-nil error.
\<close>

type_synonym 'a io = "(error + 'a) \<times> event list"

text \<open>
  Sequencing: an error ends the run with the events so far; otherwise the rest runs and
  its events follow.
\<close>

definition andThen :: "'a io \<Rightarrow> ('a \<Rightarrow> 'b io) \<Rightarrow> 'b io" where
  "andThen m f =
     (case m of
        (Inl err, t) \<Rightarrow> (Inl err, t)
      | (Inr x, t) \<Rightarrow> (case f x of (r, t') \<Rightarrow> (r, t @ t')))"

text \<open>\<^verbatim>\<open>if err != nil { return fmt.Errorf("...: %w", err) }\<close> after a call.\<close>

definition wrapErr :: "string \<Rightarrow> 'a io \<Rightarrow> 'a io" where
  "wrapErr format m =
     (case m of
        (Inl err, t) \<Rightarrow> (Inl (Wrapf format [] err), t)
      | (Inr x, t) \<Rightarrow> (Inr x, t))"

text \<open>
  The interface \<^verbatim>\<open>apiClient\<close> of \<^verbatim>\<open>common.go\<close>, as a deterministic test double:
  each method is a function of its arguments (the context is left out). Methods no
  modelled function calls are left out.
\<close>

record apiClient =
  GetCodespace :: "string \<Rightarrow> bool \<Rightarrow> error + Codespace"
  GetOrgMemberCodespace :: "string \<Rightarrow> string \<Rightarrow> string \<Rightarrow> error + Codespace"
  ListCodespaces :: "string \<Rightarrow> string \<Rightarrow> error + Codespace list"
  DeleteCodespace :: "string \<Rightarrow> string \<Rightarrow> string \<Rightarrow> error option"
  CreateCodespace :: "CreateCodespaceParams \<Rightarrow> error + Codespace"
  GetRepository :: "string \<Rightarrow> error + Repository"
  GetCodespaceBillableOwner :: "string \<Rightarrow> error + User option"
  GetCodespacesMachines :: "int \<Rightarrow> string \<Rightarrow> string \<Rightarrow> string \<Rightarrow> error + Machine list"
  ListDevContainers :: "int \<Rightarrow> string \<Rightarrow> int \<Rightarrow> error + DevContainerEntry list"

text \<open>The two methods of \<^verbatim>\<open>liveshareSession\<close> that \<^verbatim>\<open>Rebuild\<close> calls.\<close>

record liveshareSession =
  RebuildContainer :: "bool \<Rightarrow> error option"
  Close :: "error option"

text \<open>
  The \<^verbatim>\<open>App\<close> with the process state its methods read: the package variable
  \<^verbatim>\<open>hasTTY\<close>, the answers of \<^verbatim>\<open>a.io\<close>, the environment, and scripted
  collaborators. Taken as given, as parameters:
  \<^item> functions of Go's library, on instants as nanoseconds since the epoch:
    \<^verbatim>\<open>time_Parse_RFC3339\<close> is \<^verbatim>\<open>time.Parse(time.RFC3339, s)\<close>;
    \<^verbatim>\<open>time_AddDate t days\<close> is \<^verbatim>\<open>t.AddDate(0, 0, days)\<close>, which steps calendar
    days in the location of \<^verbatim>\<open>t\<close>; \<^verbatim>\<open>strings_EqualFold\<close> is
    \<^verbatim>\<open>strings.EqualFold\<close>; \<^verbatim>\<open>utf8_RuneCountInString\<close> is the count of runes by
    which \<^verbatim>\<open>fmt\<close> measures the width of a string;
  \<^item> \<^verbatim>\<open>text_DisplayURL\<close> and \<^verbatim>\<open>ConnectToLiveshare\<close>, which are
    \<^verbatim>\<open>text.DisplayURL\<close> and \<^verbatim>\<open>codespaces.ConnectToLiveshare\<close>: functions of
    packages that are not among the sources; the second opens the session of a
    codespace or fails;
  \<^item> the survey, where \<^verbatim>\<open>survey_Select\<close> answers with the index of the chosen
    option; it never answers with \<^verbatim>\<open>terminal.InterruptErr\<close>, on which \<^verbatim>\<open>ask\<close>
    signals the process and does not return;
  \<^item> \<^verbatim>\<open>postCreateStates\<close>, the poll passes the remote reports to \<^verbatim>\<open>showStatus\<close>.
\<close>

record App =
  apiClient :: apiClient
  hasTTY :: bool
  io_CanPrompt :: bool
  io_IsStderrTTY :: bool
  Getenv :: "string \<Rightarrow> string"
  time_Parse_RFC3339 :: "string \<Rightarrow> error + int"
  time_AddDate :: "int \<Rightarrow> int \<Rightarrow> int"
  strings_EqualFold :: "string \<Rightarrow> string \<Rightarrow> bool"
  utf8_RuneCountInString :: "string \<Rightarrow> nat"
  text_DisplayURL :: "string \<Rightarrow> string"
  survey_Input :: "string \<Rightarrow> string \<Rightarrow> string \<Rightarrow> error + string"
  survey_Select :: "string \<Rightarrow> string \<Rightarrow> string list \<Rightarrow> error + nat"
  survey_Confirm :: "string \<Rightarrow> string \<Rightarrow> error + bool"
  browser_Browse :: "string \<Rightarrow> error option"
  ConnectToLiveshare :: "Codespace \<Rightarrow> error + liveshareSession"
  postCreateStates :: "PostCreateState list list"

text \<open>
  \<^verbatim>\<open>ask\<close>, once per kind of question. Without a terminal it fails before the survey
  is shown. A selection is the index of one of the options; the survey library
  answers with nothing else, so an index beyond the options counts as its error.
\<close>

definition ask_Input :: "App \<Rightarrow> string \<Rightarrow> string \<Rightarrow> string \<Rightarrow> string io" where
  "ask_Input a name message dflt =
     (if \<not> hasTTY a then (Inl (Errorf ''no terminal'' []), [Ask (Input name message dflt)])
      else (survey_Input a name message dflt, [Ask (Input name message dflt)]))"

definition ask_Select :: "App \<Rightarrow> string \<Rightarrow> string \<Rightarrow> string list \<Rightarrow> nat io" where
  "ask_Select a name message options =
     (if \<not> hasTTY a then (Inl (Errorf ''no terminal'' []), [Ask (Select name message options)])
      else (case survey_Select a name message options of
              Inl err \<Rightarrow> (Inl err, [Ask (Select name message options)])
            | Inr i \<Rightarrow>
                if i < length options then (Inr i, [Ask (Select name message options)])
                else (Inl (Opaque ''survey: no such option''), [Ask (Select name message options)])))"

definition ask_Confirm :: "App \<Rightarrow> string \<Rightarrow> string \<Rightarrow> bool io" where
  "ask_Confirm a name message =
     (if \<not> hasTTY a then (Inl (Errorf ''no terminal'' []), [Ask (Confirm name message)])
      else (survey_Confirm a name message, [Ask (Confirm name message)]))"

section \<open>common.go\<close>

definition hasUnsavedChanges :: "Codespace \<Rightarrow> bool" where
  "hasUnsavedChanges c = (GitStatus_HasUncommitedChanges c \<or> GitStatus_HasUnpushedChanges c)"

definition gitStatusDirty :: string where
  "gitStatusDirty = ''*''"

definition branchWithGitStatus :: "Codespace \<Rightarrow> string" where
  "branchWithGitStatus c =
     (if hasUnsavedChanges c then GitStatus_Ref c @ gitStatusDirty else GitStatus_Ref c)"

text \<open>
  \<^verbatim>\<open>displayName\<close>: the two \<^verbatim>\<open>Sprintf\<close> calls written out; \<^verbatim>\<open>%-15s\<close> pads the
  login with spaces on the right to a width of fifteen runes.
\<close>

definition displayName :: "App \<Rightarrow> Codespace \<Rightarrow> bool \<Rightarrow> string" where
  "displayName a c includeOwner =
     (let branch = branchWithGitStatus c;
          displayName = (if Codespace.DisplayName c = [] then Codespace.Name c
                         else Codespace.DisplayName c);
          description = Repository_FullName c @ '' ('' @ branch @ ''): '' @ displayName
      in if includeOwner
         then Owner_Login c
                @ replicate (15 - utf8_RuneCountInString a (Owner_Login c)) (CHR '' '') @ '' ''
                @ description
         else description)"

definition formatCodespacesForSelect :: "App \<Rightarrow> Codespace list \<Rightarrow> bool \<Rightarrow> string list" where
  "formatCodespacesForSelect a codespaces includeOwner =
     map (\<lambda>c. displayName a c includeOwner) codespaces"

text \<open>
  \<^verbatim>\<open>sort.Slice\<close> with the comparison \<^verbatim>\<open>CreatedAt[i] > CreatedAt[j]\<close>: newest first,
  strings compared byte by byte. Go leaves the order of equal keys open; here they keep
  their order.
\<close>

fun insert_newest :: "Codespace \<Rightarrow> Codespace list \<Rightarrow> Codespace list" where
  "insert_newest x [] = [x]"
| "insert_newest x (y # ys) =
     (if CreatedAt y > CreatedAt x then y # insert_newest x ys else x # y # ys)"

definition sort_Slice_CreatedAt :: "Codespace list \<Rightarrow> Codespace list" where
  "sort_Slice_CreatedAt codespaces = foldr insert_newest codespaces []"

text \<open>
  \<^verbatim>\<open>chooseCodespaceFromList\<close>. The sort works in place on the caller's slice, so the
  sorted slice is returned with the choice.
\<close>

definition chooseCodespaceFromList ::
  "App \<Rightarrow> Codespace list \<Rightarrow> bool \<Rightarrow> (Codespace \<times> Codespace list) io" where
  "chooseCodespaceFromList a codespaces includeOwner =
     (if codespaces = [] then (Inl errNoCodespaces, [])
      else
        (let sortedCodespaces = sort_Slice_CreatedAt codespaces
         in andThen
              (wrapErr ''error getting answers: %w''
                 (ask_Select a ''codespace'' ''Choose codespace:''
                    (formatCodespacesForSelect a sortedCodespaces includeOwner)))
              (\<lambda>answer. (Inr (sortedCodespaces ! answer, sortedCodespaces), []))))"

text \<open>A call of the control-plane client: its answer and the event of the call.\<close>

definition call_ListCodespaces :: "App \<Rightarrow> string \<Rightarrow> string \<Rightarrow> Codespace list io" where
  "call_ListCodespaces a orgName userName =
     (ListCodespaces (apiClient a) orgName userName, [Call_ListCodespaces orgName userName])"

definition call_GetCodespace :: "App \<Rightarrow> string \<Rightarrow> bool \<Rightarrow> Codespace io" where
  "call_GetCodespace a name includeConnection =
     (GetCodespace (apiClient a) name includeConnection, [Call_GetCodespace name includeConnection])"

definition chooseCodespace :: "App \<Rightarrow> Codespace io" where
  "chooseCodespace a =
     andThen (wrapErr ''error getting codespaces: %w'' (call_ListCodespaces a [] []))
       (\<lambda>codespaces. andThen (chooseCodespaceFromList a codespaces False)
          (\<lambda>(c, sorted). (Inr c, [])))"

definition getOrChooseCodespace :: "App \<Rightarrow> string \<Rightarrow> Codespace io" where
  "getOrChooseCodespace a codespaceName =
     andThen
       (if codespaceName = [] then
          (case chooseCodespace a of
             (Inl err, t) \<Rightarrow>
               if err = errNoCodespaces then (Inl err, t)
               else (Inl (Wrapf ''choosing codespace: %w'' [] err), t)
           | (Inr codespace, t) \<Rightarrow> (Inr codespace, t))
        else wrapErr ''getting full codespace details: %w''
               (call_GetCodespace a codespaceName True))
       (\<lambda>codespace.
          if PendingOperation codespace then
            (Inl (Errorf ''codespace is disabled while it has a pending operation: %s''
                    [PendingOperationDisabledReason codespace]), [])
          else (Inr codespace, []))"

text \<open>
  \<^verbatim>\<open>startLiveShareSession\<close> with \<^verbatim>\<open>debug = false\<close>, the only way \<^verbatim>\<open>Rebuild\<close>
  calls it: no file logger is made.
\<close>

definition startLiveShareSession :: "App \<Rightarrow> Codespace \<Rightarrow> liveshareSession io" where
  "startLiveShareSession a codespace =
     wrapErr ''failed to connect to Live Share: %w''
       (ConnectToLiveshare a codespace, [Call_ConnectToLiveshare (Codespace.Name codespace)])"

section \<open>rebuild.go\<close>

text \<open>
  \<^verbatim>\<open>Rebuild\<close>. The deferred \<^verbatim>\<open>safeClose\<close> closes the session on both ways out and
  makes its error the result only when the result was \<^verbatim>\<open>nil\<close>.
\<close>

definition Rebuild :: "App \<Rightarrow> string \<Rightarrow> bool \<Rightarrow> error option \<times> event list" where
  "Rebuild a codespaceName full =
     (case getOrChooseCodespace a codespaceName of
        (Inl err, t) \<Rightarrow> (Some err, t)
      | (Inr codespace, t) \<Rightarrow>
          if State codespace = CodespaceStateRebuilding then
            (None, t @ [Fprintf Out ''%s is already rebuilding\<newline>'' [Str (Codespace.Name codespace)]])
          else
            (case startLiveShareSession a codespace of
               (Inl err, t') \<Rightarrow> (Some (Wrapf ''starting Live Share session: %w'' [] err), t @ t')
             | (Inr session, t') \<Rightarrow>
                 (case RebuildContainer session full of
                    Some err \<Rightarrow>
                      (Some (Wrapf ''rebuilding codespace via session: %w'' [] err),
                       t @ t' @ [Session_RebuildContainer full, Session_Close])
                  | None \<Rightarrow>
                      (Close session,
                       t @ t' @ [Session_RebuildContainer full,
                                 Fprintf Out ''%s is rebuilding\<newline>'' [Str (Codespace.Name codespace)],
                                 Session_Close]))))"

section \<open>The delete command (package codespace, edit.go from line 197)\<close>

text \<open>
  \<^verbatim>\<open>deleteOptions\<close>. \<^verbatim>\<open>now\<close> is the value \<^verbatim>\<open>opts.now()\<close> returns, in nanoseconds
  since the epoch; \<^verbatim>\<open>prompter_Confirm\<close> is the method of the \<^verbatim>\<open>prompter\<close> interface.
\<close>

record deleteOptions =
  deleteAll :: bool
  skipConfirm :: bool
  codespaceName :: string
  repoFilter :: string
  keepDays :: "16 word"
  orgName :: string
  userName :: string
  isInteractive :: bool
  now :: int
  prompter_Confirm :: "string \<Rightarrow> error + bool"

text \<open>\<^verbatim>\<open>surveyPrompter.Confirm\<close>, the prompter \<^verbatim>\<open>newDeleteCmd\<close> installs.\<close>

definition surveyPrompter_Confirm :: "App \<Rightarrow> string \<Rightarrow> error + bool" where
  "surveyPrompter_Confirm a message =
     fst (wrapErr ''failed to prompt: %w'' (ask_Confirm a ''confirmed'' message))"

text \<open>
  \<^verbatim>\<open>confirmDeletion\<close>. The call of the prompter is recorded as the question it asks.
\<close>

definition confirmDeletion :: "(string \<Rightarrow> error + bool) \<Rightarrow> Codespace \<Rightarrow> bool \<Rightarrow> bool io" where
  "confirmDeletion p apiCodespace interactive =
     (if \<not> hasUnsavedChanges apiCodespace then (Inr True, [])
      else if \<not> interactive then
        (Inl (Errorf ''codespace %s has unsaved changes (use --force to override)''
                [Codespace.Name apiCodespace]), [])
      else
        (p (''Codespace '' @ Codespace.Name apiCodespace @ '' has unsaved changes. OK to delete?''),
         [Ask (Confirm ''confirmed''
                (''Codespace '' @ Codespace.Name apiCodespace @ '' has unsaved changes. OK to delete?''))]))"

definition call_GetOrgMemberCodespace :: "App \<Rightarrow> string \<Rightarrow> string \<Rightarrow> string \<Rightarrow> Codespace io" where
  "call_GetOrgMemberCodespace a org user name =
     (GetOrgMemberCodespace (apiClient a) org user name, [Call_GetOrgMemberCodespace org user name])"

text \<open>
  \<^verbatim>\<open>Delete\<close>, lines 275 to 310 of edit.go: the candidates and the name filter. The progress
  indicator is stopped before the error of the call is looked at.
\<close>

definition Delete_fetch :: "App \<Rightarrow> deleteOptions \<Rightarrow> (Codespace list \<times> string) io" where
  "Delete_fetch a opts =
     (if codespaceName opts = [] then
        andThen (wrapErr ''error getting codespaces: %w''
                   (case call_ListCodespaces a (orgName opts) (userName opts) of
                      (r, t) \<Rightarrow> (r, [StartProgressIndicatorWithLabel ''Fetching codespaces'']
                                     @ t @ [StopProgressIndicator])))
          (\<lambda>codespaces.
             if \<not> deleteAll opts \<and> repoFilter opts = [] then
               andThen (wrapErr ''error choosing codespace: %w''
                          (chooseCodespaceFromList a codespaces (orgName opts \<noteq> [])))
                 (\<lambda>(c, sorted). (Inr (sorted, Codespace.Name c), []))
             else (Inr (codespaces, []), []))
      else
        andThen (wrapErr ''error fetching codespace information: %w''
                   (case (if orgName opts = [] \<or> userName opts = []
                          then call_GetCodespace a (codespaceName opts) False
                          else call_GetOrgMemberCodespace a (orgName opts) (userName opts)
                                 (codespaceName opts)) of
                      (r, t) \<Rightarrow> (r, [StartProgressIndicatorWithLabel ''Fetching codespace'']
                                     @ t @ [StopProgressIndicator])))
          (\<lambda>codespace. (Inr ([codespace], codespaceName opts), [])))"

text \<open>
  \<^verbatim>\<open>Delete\<close>, lines 314 to 340: the loop that fills \<^verbatim>\<open>codespacesToDelete\<close>. A
  \<^verbatim>\<open>continue\<close> goes on with the rest; an error ends the whole run.
\<close>

fun Delete_loop ::
  "App \<Rightarrow> deleteOptions \<Rightarrow> string \<Rightarrow> int \<Rightarrow> Codespace list \<Rightarrow> Codespace list io" where
  "Delete_loop a opts nameFilter cutoffTime [] = (Inr [], [])"
| "Delete_loop a opts nameFilter cutoffTime (c # codespaces) =
     (if nameFilter \<noteq> [] \<and> Codespace.Name c \<noteq> nameFilter
      then Delete_loop a opts nameFilter cutoffTime codespaces
      else if repoFilter opts \<noteq> [] \<and> \<not> strings_EqualFold a (Repository_FullName c) (repoFilter opts)
      then Delete_loop a opts nameFilter cutoffTime codespaces
      else
        (case (if keepDays opts > 0 then
                 (case time_Parse_RFC3339 a (LastUsedAt c) of
                    Inl err \<Rightarrow>
                      Inl (Wrapf ''error parsing last_used_at timestamp %q: %w'' [LastUsedAt c] err)
                  | Inr t \<Rightarrow> Inr (t > cutoffTime))
               else Inr False) of
           Inl err \<Rightarrow> (Inl err, [])
         | Inr True \<Rightarrow> Delete_loop a opts nameFilter cutoffTime codespaces
         | Inr False \<Rightarrow>
             if \<not> skipConfirm opts then
               andThen (wrapErr ''unable to confirm: %w''
                          (confirmDeletion (prompter_Confirm opts) c (isInteractive opts)))
                 (\<lambda>confirmed.
                    if \<not> confirmed
                    then Delete_loop a opts nameFilter cutoffTime codespaces
                    else andThen (Delete_loop a opts nameFilter cutoffTime codespaces)
                           (\<lambda>rest. (Inr (c # rest), [])))
             else andThen (Delete_loop a opts nameFilter cutoffTime codespaces)
                    (\<lambda>rest. (Inr (c # rest), []))))"

text \<open>
  One task of the \<^verbatim>\<open>errgroup.Group\<close>: the delete call and, when it fails, the line
  on the error logger; the task's result is the error.
\<close>

definition deleteTask :: "App \<Rightarrow> deleteOptions \<Rightarrow> string \<Rightarrow> error option \<times> event list" where
  "deleteTask a opts name =
     (case DeleteCodespace (apiClient a) name (orgName opts) (userName opts) of
        Some err \<Rightarrow>
          (Some err,
           [Call_DeleteCodespace name (orgName opts) (userName opts),
            Fprintf ErrLogger ''error deleting codespace %q: %v\<newline>'' [Str name, ErrArg err]])
      | None \<Rightarrow> (None, [Call_DeleteCodespace name (orgName opts) (userName opts)]))"

text \<open>
  \<^verbatim>\<open>errgroup.Group\<close> is a type of the library golang.org/x/sync. A zero group
  starts every function handed to \<^verbatim>\<open>Go\<close>, and \<^verbatim>\<open>Wait\<close> returns, once all have
  returned, the first error that is not \<^verbatim>\<open>nil\<close>. The tasks share no state, so they
  are run here one after the other in the order of the slice; their events may
  interleave in any order in a real run.
\<close>

fun errgroup_Wait :: "error option list \<Rightarrow> error option" where
  "errgroup_Wait [] = None"
| "errgroup_Wait (Some err # rs) = Some err"
| "errgroup_Wait (None # rs) = errgroup_Wait rs"

text \<open>
  \<^verbatim>\<open>Delete\<close>, lines 346 to 368: the tasks, the wait and the result, with the
  deferred stop of the progress indicator last.
\<close>

definition Delete_execute :: "App \<Rightarrow> deleteOptions \<Rightarrow> Codespace list \<Rightarrow> unit io" where
  "Delete_execute a opts codespacesToDelete =
     (let progressLabel = (if length codespacesToDelete > 1 then ''Deleting codespaces''
                           else ''Deleting codespace'');
          tasks = map (\<lambda>c. deleteTask a opts (Codespace.Name c)) codespacesToDelete
      in (case errgroup_Wait (map fst tasks) of
            Some err \<Rightarrow> Inl (New ''some codespaces failed to delete'')
          | None \<Rightarrow> Inr (),
          [StartProgressIndicatorWithLabel progressLabel] @ concat (map snd tasks)
            @ [StopProgressIndicator]))"

text \<open>Line 313: \<^verbatim>\<open>opts.now().AddDate(0, 0, -int(opts.keepDays))\<close>.\<close>

definition lastUpdatedCutoffTime :: "App \<Rightarrow> deleteOptions \<Rightarrow> int" where
  "lastUpdatedCutoffTime a opts = time_AddDate a (now opts) (- int (unat (keepDays opts)))"

definition Delete :: "App \<Rightarrow> deleteOptions \<Rightarrow> unit io" where
  "Delete a opts =
     andThen (Delete_fetch a opts)
       (\<lambda>(codespaces, nameFilter).
          andThen (Delete_loop a opts nameFilter (lastUpdatedCutoffTime a opts) codespaces)
            (\<lambda>codespacesToDelete.
               if codespacesToDelete = [] then (Inl (New ''no codespaces to delete''), [])
               else Delete_execute a opts codespacesToDelete))"

text \<open>The \<^verbatim>\<open>RunE\<close> function of \<^verbatim>\<open>newDeleteCmd\<close>, on the options the flags have set.\<close>

definition newDeleteCmd_RunE :: "App \<Rightarrow> deleteOptions \<Rightarrow> unit io" where
  "newDeleteCmd_RunE a opts =
     (if deleteAll opts \<and> repoFilter opts \<noteq> [] then
        (Inl (FlagErrorf ''both `--all` and `--repo` is not supported''), [])
      else if orgName opts \<noteq> [] \<and> codespaceName opts \<noteq> [] \<and> userName opts = [] then
        (Inl (FlagErrorf ''using `--org` with `--codespace` requires `--user`''), [])
      else Delete a opts)"

section \<open>create.go\<close>

definition DEVCONTAINER_PROMPT_DEFAULT :: string where
  "DEVCONTAINER_PROMPT_DEFAULT = ''Default Codespaces configuration''"

definition DEFAULT_DEVCONTAINER_DEFINITIONS :: "string list" where
  "DEFAULT_DEVCONTAINER_DEFINITIONS = [''.devcontainer.json'', ''.devcontainer/devcontainer.json'']"

text \<open>
  \<^verbatim>\<open>createOptions\<close>. The two durations are kept as the minutes the code computes from
  them: \<^verbatim>\<open>int(opts.idleTimeout.Minutes())\<close> and \<^verbatim>\<open>opts.retentionPeriod.Minutes()\<close>.
\<close>

record createOptions =
  repo :: string
  branch :: string
  location :: string
  machine :: string
  showStatus_flag :: bool
  permissionsOptOut :: bool
  devContainerPath :: string
  idleTimeout_Minutes :: int
  retentionPeriod_Minutes :: "int option"

fun stringInSlice :: "string \<Rightarrow> string list \<Rightarrow> bool" where
  "stringInSlice x [] = False"
| "stringInSlice x (b # rest) = (if b = x then True else stringInSlice x rest)"

definition buildDisplayName :: "string \<Rightarrow> string \<Rightarrow> string" where
  "buildDisplayName name prebuildAvailability =
     (if prebuildAvailability = ''ready'' then name @ '' (Prebuild ready)''
      else if prebuildAvailability = ''in_progress'' then name @ '' (Prebuild in progress)''
      else name)"

text \<open>\<^verbatim>\<open>%v\<close> of a slice of strings: the elements between brackets, a space apart.\<close>

fun join_spaces :: "string list \<Rightarrow> string" where
  "join_spaces [] = []"
| "join_spaces [x] = x"
| "join_spaces (x # y # xs) = x @ '' '' @ join_spaces (y # xs)"

definition fmt_v_strings :: "string list \<Rightarrow> string" where
  "fmt_v_strings xs = ''['' @ join_spaces xs @ '']''"

definition call_GetCodespacesMachines ::
  "App \<Rightarrow> int \<Rightarrow> string \<Rightarrow> string \<Rightarrow> string \<Rightarrow> Machine list io" where
  "call_GetCodespacesMachines a repoID branchName loc path =
     (GetCodespacesMachines (apiClient a) repoID branchName loc path,
      [Call_GetCodespacesMachines repoID branchName loc path])"

text \<open>
  \<^verbatim>\<open>getMachineName\<close>. \<^verbatim>\<open>machineByName\<close> is filled in the order of the slice, so of
  two machines with one display name the later one is found. The survey answers with
  one of the options; a name that is no key of the map would make the code
  dereference \<^verbatim>\<open>nil\<close>.
\<close>

definition getMachineName ::
  "App \<Rightarrow> int \<Rightarrow> string \<Rightarrow> string \<Rightarrow> string \<Rightarrow> string \<Rightarrow> string io" where
  "getMachineName a repoID machineName branchName loc path =
     andThen (wrapErr ''error requesting machine instance types: %w''
                (call_GetCodespacesMachines a repoID branchName loc path))
       (\<lambda>machines.
          if machineName \<noteq> [] then
            (if machineName \<in> set (map Machine.Name machines) then (Inr machineName, [])
             else (Inl (Errorf ''there is no such machine for the repository: %s\<newline>Available machines: %v''
                          [machineName, fmt_v_strings (map Machine.Name machines)]), []))
          else if length machines = 0 then (Inr [], [])
          else if length machines = 1 then (Inr (Machine.Name (machines ! 0)), [])
          else
            (let machineNames = map (\<lambda>m. buildDisplayName (Machine.DisplayName m)
                                            (PrebuildAvailability m)) machines;
                 machineByName = map_of (rev (zip machineNames machines))
             in andThen (wrapErr ''error getting machine: %w''
                           (ask_Select a ''machine'' ''Choose Machine Type:'' machineNames))
                  (\<lambda>answer.
                     case machineByName (machineNames ! answer) of
                       None \<Rightarrow> (Inl (Opaque ''nil pointer dereference''), [])
                     | Some selectedMachine \<Rightarrow> (Inr (Machine.Name selectedMachine), []))))"

text \<open>Events before a run and after it.\<close>

definition between :: "event list \<Rightarrow> 'a io \<Rightarrow> event list \<Rightarrow> 'a io" where
  "between before m after = (case m of (r, t) \<Rightarrow> (r, before @ t @ after))"

text \<open>
  \<^verbatim>\<open>Create\<close>, lines 181 to 226: the devcontainer path, for the repository and the
  branch resolved before.
\<close>

definition Create_devcontainer :: "App \<Rightarrow> createOptions \<Rightarrow> int \<Rightarrow> string \<Rightarrow> string io" where
  "Create_devcontainer a opts repoID branchName =
     (if devContainerPath opts = [] then
        andThen (wrapErr ''error getting devcontainer.json paths: %w''
                   (between [StartProgressIndicatorWithLabel ''Fetching devcontainer.json files'']
                      (ListDevContainers (apiClient a) repoID branchName 100,
                       [Call_ListDevContainers repoID branchName 100])
                      [StopProgressIndicator]))
          (\<lambda>devcontainers.
             andThen
               (if length devcontainers > 0 then
                  (if length devcontainers = 1 \<and>
                      stringInSlice (Path (devcontainers ! 0)) DEFAULT_DEVCONTAINER_DEFINITIONS
                   then (Inr (Path (devcontainers ! 0)), [])
                   else
                     (let promptOptions =
                            (if \<not> stringInSlice (Path (devcontainers ! 0)) DEFAULT_DEVCONTAINER_DEFINITIONS
                             then [DEVCONTAINER_PROMPT_DEFAULT] else [])
                            @ map Path devcontainers
                      in andThen (wrapErr ''failed to prompt: %w''
                                    (ask_Select a ''devContainerPath''
                                       ''Devcontainer definition file:'' promptOptions))
                           (\<lambda>answer. (Inr (promptOptions ! answer), []))))
                else (Inr (devContainerPath opts), []))
               (\<lambda>path. if path = DEVCONTAINER_PROMPT_DEFAULT then (Inr [], []) else (Inr path, [])))
      else (Inr (devContainerPath opts), []))"

text \<open>
  \<^verbatim>\<open>Create\<close>, lines 98 to 226: repository, location, branch and devcontainer path.
  The colour functions of the output are left out. The suggestions the repository
  prompt may fetch while the user types are part of the scripted survey.
\<close>

definition Create_resolve ::
  "App \<Rightarrow> createOptions \<Rightarrow> (Repository \<times> string \<times> string \<times> string) io" where
  "Create_resolve a opts =
     (let vscsLocation = Getenv a ''VSCS_LOCATION'';
          promptForRepoAndBranch = (repo opts = [])
      in andThen
           (if promptForRepoAndBranch
            then wrapErr ''failed to prompt: %w'' (ask_Input a ''repository'' ''Repository:'' [])
            else (Inr (repo opts), []))
           (\<lambda>userInputs_Repository.
              let userInputs_Location =
                    (if location opts = [] \<and> vscsLocation \<noteq> [] then vscsLocation else location opts)
              in andThen
                   (wrapErr ''error getting repository: %w''
                      (between [StartProgressIndicatorWithLabel ''Fetching repository'']
                         (GetRepository (apiClient a) userInputs_Repository,
                          [Call_GetRepository userInputs_Repository])
                         [StopProgressIndicator]))
                   (\<lambda>repository.
                      andThen
                        (wrapErr ''error checking codespace ownership: %w''
                           (between [StartProgressIndicatorWithLabel ''Validating repository for codespaces'']
                              (GetCodespaceBillableOwner (apiClient a) userInputs_Repository,
                               [Call_GetCodespaceBillableOwner userInputs_Repository])
                              [StopProgressIndicator]))
                        (\<lambda>billableOwner.
                           between
                             (case billableOwner of
                                None \<Rightarrow> []
                              | Some owner \<Rightarrow>
                                  if Type owner = ''Organization'' then
                                    [Fprintln ErrOut
                                       [''  '' @ [CHR 0xE2, CHR 0x9C, CHR 0x93]
                                          @ '' Codespaces usage for this repository is paid for by ''
                                          @ Login owner]]
                                  else [])
                             (andThen
                                (if promptForRepoAndBranch then
                                   wrapErr ''failed to prompt: %w''
                                     (ask_Input a ''branch''
                                        (if branch opts \<noteq> [] then ''Branch:''
                                         else ''Branch (leave blank for default branch):'')
                                        (branch opts))
                                 else (Inr (branch opts), []))
                                (\<lambda>userInputs_Branch.
                                   let branchName = (if userInputs_Branch = []
                                                     then DefaultBranch repository
                                                     else userInputs_Branch)
                                   in andThen (Create_devcontainer a opts (ID repository) branchName)
                                        (\<lambda>path. (Inr (repository, branchName, userInputs_Location, path), []))))
                             []))))"

text \<open>\<^verbatim>\<open>Create\<close>, lines 228 to 247: the machine and the parameters of the request.\<close>

definition Create_machine ::
  "App \<Rightarrow> createOptions \<Rightarrow> Repository \<times> string \<times> string \<times> string \<Rightarrow> CreateCodespaceParams io" where
  "Create_machine a opts resolved =
     (case resolved of
        (repository, branchName, userInputs_Location, path) \<Rightarrow>
          andThen (wrapErr ''error getting machine type: %w''
                     (getMachineName a (ID repository) (machine opts) branchName
                        userInputs_Location path))
            (\<lambda>machineName.
               if machineName = [] then
                 (Inl (New ''there are no available machine types for this repository''), [])
               else
                 (Inr \<lparr>RepositoryID = ID repository, Branch = branchName, Machine = machineName,
                       Location = userInputs_Location,
                       VSCSTarget = Getenv a ''VSCS_TARGET'',
                       VSCSTargetURL = Getenv a ''VSCS_TARGET_URL'',
                       IdleTimeoutMinutes = idleTimeout_Minutes opts,
                       RetentionPeriodMinutes = retentionPeriod_Minutes opts,
                       DevContainerPath = path,
                       PermissionsOptOut = permissionsOptOut opts\<rparr>, [])))"

definition call_CreateCodespace :: "App \<Rightarrow> CreateCodespaceParams \<Rightarrow> Codespace io" where
  "call_CreateCodespace a params =
     between [StartProgressIndicatorWithLabel ''Creating codespace'']
       (CreateCodespace (apiClient a) params, [Call_CreateCodespace params])
       [StopProgressIndicator]"

definition handleAdditionalPermissions ::
  "App \<Rightarrow> CreateCodespaceParams \<Rightarrow> string \<Rightarrow> Codespace io" where
  "handleAdditionalPermissions a createParams allowPermissionsURL =
     between
       [Fprintf ErrOut ''You must authorize or deny additional permissions requested by this codespace before continuing.\<newline>'' []]
       (if \<not> io_CanPrompt a then
          (Inl SilentError,
           [Fprintf ErrOut ''%s in your browser to review and authorize additional permissions: %s\<newline>''
              [Str ''Open this URL'', Str (text_DisplayURL a allowPermissionsURL)],
            Fprintf ErrOut ''Alternatively, you can run %q with the %q option to continue without authorizing additional permissions.\<newline>''
              [Str ''create'', Str ''--default-permissions'']])
        else
          andThen (wrapErr ''error getting answers: %w''
                     (ask_Select a ''accept'' ''What would you like to do?''
                        [''Continue in browser to review and authorize additional permissions (Recommended)'',
                         ''Continue without authorizing additional permissions'']))
            (\<lambda>answer.
               if answer = 0 then
                 between
                   [Fprintln ErrOut [''Please re-run the create request after accepting permissions in the browser.''],
                    Browse allowPermissionsURL]
                   (case browser_Browse a allowPermissionsURL of
                      Some err \<Rightarrow> (Inl (Wrapf ''error opening browser: %w'' [] err), [])
                    | None \<Rightarrow> (Inl SilentError, []))
                   []
               else
                 wrapErr ''error creating codespace: %w''
                   (call_CreateCodespace a (createParams\<lparr>PermissionsOptOut := True\<rparr>))))
       []"

text \<open>
  \<^verbatim>\<open>Create\<close>, lines 249 to 281: the request, the permissions flow, the status and the
  output.
\<close>

definition Create_submit :: "App \<Rightarrow> createOptions \<Rightarrow> CreateCodespaceParams \<Rightarrow> unit io" where
  "Create_submit a opts createParams =
     andThen
       (case call_CreateCodespace a createParams of
          (Inl err, t) \<Rightarrow>
            (case errors_As_AcceptPermissionsRequiredError err of
               None \<Rightarrow> (Inl (Wrapf ''error creating codespace: %w'' [] err), t)
             | Some url \<Rightarrow>
                 if url = [] then (Inl (Wrapf ''error creating codespace: %w'' [] err), t)
                 else between t (handleAdditionalPermissions a createParams url) [])
        | (Inr codespace, t) \<Rightarrow> (Inr codespace, t))
       (\<lambda>codespace.
          andThen
            (if showStatus_flag opts then
               (case showStatus (postCreateStates a) of
                  (Some err, t) \<Rightarrow> (Inl (Wrapf ''show status: %w'' [] err), t)
                | (None, t) \<Rightarrow> (Inr (), t))
             else (Inr (), []))
            (\<lambda>u. (Inr (),
                   Fprintln Out [Codespace.Name codespace]
                     # (if io_IsStderrTTY a \<and> IdleTimeoutNotice codespace \<noteq> []
                        then [Fprintln ErrOut [''Notice:'', IdleTimeoutNotice codespace]]
                        else []))))"

definition Create :: "App \<Rightarrow> createOptions \<Rightarrow> unit io" where
  "Create a opts =
     andThen (Create_resolve a opts)
       (\<lambda>resolved. andThen (Create_machine a opts resolved) (Create_submit a opts))"

section \<open>Reading the events of a run\<close>

fun is_session_event :: "event \<Rightarrow> bool" where
  "is_session_event (Call_ConnectToLiveshare n) = True"
| "is_session_event (Session_RebuildContainer full) = True"
| "is_session_event Session_Close = True"
| "is_session_event _ = False"

fun is_Ask :: "event \<Rightarrow> bool" where
  "is_Ask (Ask q) = True"
| "is_Ask _ = False"

fun is_CreateCodespace :: "event \<Rightarrow> bool" where
  "is_CreateCodespace (Call_CreateCodespace params) = True"
| "is_CreateCodespace _ = False"

fun is_DeleteCodespace :: "event \<Rightarrow> bool" where
  "is_DeleteCodespace (Call_DeleteCodespace name org user) = True"
| "is_DeleteCodespace _ = False"

fun is_ErrLogger_line :: "event \<Rightarrow> bool" where
  "is_ErrLogger_line (Fprintf ErrLogger format args) = True"
| "is_ErrLogger_line _ = False"

text \<open>A call of the control-plane client, of the browser or of the session.\<close>

fun is_network_call :: "event \<Rightarrow> bool" where
  "is_network_call (StartProgressIndicatorWithLabel l) = False"
| "is_network_call StopProgressIndicator = False"
| "is_network_call (Fprintln s xs) = False"
| "is_network_call (Fprintf s f xs) = False"
| "is_network_call (Ask q) = False"
| "is_network_call stopPolling = False"
| "is_network_call _ = True"

text \<open>
  The record a run of \<^verbatim>\<open>getOrChooseCodespace\<close> looks up: the one the control plane
  returns for the given name, or, without a name, the one chosen from the list.
\<close>

definition resolves_to :: "App \<Rightarrow> string \<Rightarrow> Codespace \<Rightarrow> bool" where
  "resolves_to a name c =
     (if name = [] then fst (chooseCodespace a) = Inr c
      else GetCodespace (apiClient a) name True = Inr c)"

text \<open>
  The filter of the bulk delete in the spec's words: name match if a name filter is set,
  case-insensitive full-name match if a repository filter is set, and
  \<^verbatim>\<open>last-used-at <= now - keepDays\<close> if \<^verbatim>\<open>keepDays > 0\<close>, where
  \<^verbatim>\<open>now - keepDays\<close> is the instant that many calendar days before \<^verbatim>\<open>now\<close>.
\<close>

definition spec_cutoff :: "App \<Rightarrow> deleteOptions \<Rightarrow> int" where
  "spec_cutoff a opts = time_AddDate a (now opts) (- int (unat (keepDays opts)))"

definition spec_name_match :: "string \<Rightarrow> Codespace \<Rightarrow> bool" where
  "spec_name_match nameFilter c = (nameFilter = [] \<or> Codespace.Name c = nameFilter)"

definition spec_repo_match :: "App \<Rightarrow> deleteOptions \<Rightarrow> Codespace \<Rightarrow> bool" where
  "spec_repo_match a opts c =
     (repoFilter opts = [] \<or> strings_EqualFold a (Repository_FullName c) (repoFilter opts))"

definition spec_old_enough :: "App \<Rightarrow> deleteOptions \<Rightarrow> Codespace \<Rightarrow> bool" where
  "spec_old_enough a opts c =
     (keepDays opts = 0 \<or>
      (case time_Parse_RFC3339 a (LastUsedAt c) of
         Inl err \<Rightarrow> False
       | Inr t \<Rightarrow> t \<le> spec_cutoff a opts))"

definition spec_survives :: "App \<Rightarrow> deleteOptions \<Rightarrow> string \<Rightarrow> Codespace \<Rightarrow> bool" where
  "spec_survives a opts nameFilter c =
     (spec_name_match nameFilter c \<and> spec_repo_match a opts c \<and> spec_old_enough a opts c)"

text \<open>The confirmation gate let the codespace through.\<close>

definition confirmed_by :: "deleteOptions \<Rightarrow> Codespace \<Rightarrow> bool" where
  "confirmed_by opts c =
     (skipConfirm opts \<or>
      fst (confirmDeletion (prompter_Confirm opts) c (isInteractive opts)) = Inr True)"

text \<open>The age test is applied to the codespace and cannot read its timestamp.\<close>

definition unparseable :: "App \<Rightarrow> deleteOptions \<Rightarrow> string \<Rightarrow> Codespace \<Rightarrow> bool" where
  "unparseable a opts nameFilter c =
     (spec_name_match nameFilter c \<and> spec_repo_match a opts c \<and> keepDays opts > 0 \<and>
      (case time_Parse_RFC3339 a (LastUsedAt c) of Inl err \<Rightarrow> True | Inr t \<Rightarrow> False))"

text \<open>
  The application of the test \<^verbatim>\<open>TestPendingOperationDisallowsLogs\<close>: the client
  knows one codespace, which has a pending operation; the streams of
  \<^verbatim>\<open>iostreams.Test\<close> are no terminal. A method the mock leaves unset fails.
\<close>

definition disabledCodespace :: Codespace where
  "disabledCodespace =
     \<lparr>Codespace.Name = ''disabledCodespace'', DisplayName = [], CreatedAt = [], LastUsedAt = [],
      State = [], PendingOperation = True,
      PendingOperationDisabledReason = ''Some pending operation'',
      Repository_FullName = [], Owner_Login = [], GitStatus_Ref = [],
      GitStatus_HasUncommitedChanges = False, GitStatus_HasUnpushedChanges = False,
      IdleTimeoutNotice = []\<rparr>"

definition apiClientMock :: apiClient where
  "apiClientMock =
     \<lparr>GetCodespace = (\<lambda>name includeConnection.
         if name = ''disabledCodespace'' then Inr disabledCodespace
         else Inl (Opaque ''no such codespace'')),
      GetOrgMemberCodespace = (\<lambda>orgName userName name. Inl (Opaque ''method is nil'')),
      ListCodespaces = (\<lambda>orgName userName. Inl (Opaque ''method is nil'')),
      DeleteCodespace = (\<lambda>name orgName userName. Some (Opaque ''method is nil'')),
      CreateCodespace = (\<lambda>params. Inl (Opaque ''method is nil'')),
      GetRepository = (\<lambda>nwo. Inl (Opaque ''method is nil'')),
      GetCodespaceBillableOwner = (\<lambda>nwo. Inl (Opaque ''method is nil'')),
      GetCodespacesMachines = (\<lambda>repoID branch location devcontainerPath. Inl (Opaque ''method is nil'')),
      ListDevContainers = (\<lambda>repoID branch limit. Inl (Opaque ''method is nil''))\<rparr>"

text \<open>A clock in UTC, where a calendar day is 86400 seconds of nanoseconds.\<close>

definition utcAddDate :: "int \<Rightarrow> int \<Rightarrow> int" where
  "utcAddDate t days = t + days * 86400000000000"

definition testingApp :: "apiClient \<Rightarrow> App" where
  "testingApp client =
     \<lparr>apiClient = client, hasTTY = False, io_CanPrompt = False, io_IsStderrTTY = False,
      Getenv = (\<lambda>name. []),
      time_Parse_RFC3339 = (\<lambda>s. Inl (Opaque ''cannot parse'')),
      time_AddDate = utcAddDate,
      strings_EqualFold = (\<lambda>s t. s = t),
      utf8_RuneCountInString = length,
      text_DisplayURL = (\<lambda>url. url),
      survey_Input = (\<lambda>name message dflt. Inl (Opaque ''no answer'')),
      survey_Select = (\<lambda>name message options. Inl (Opaque ''no answer'')),
      survey_Confirm = (\<lambda>name message. Inl (Opaque ''no answer'')),
      browser_Browse = (\<lambda>url. Some (Opaque ''no browser'')),
      ConnectToLiveshare = (\<lambda>codespace. Inl (Opaque ''no session'')),
      postCreateStates = []\<rparr>"

text \<open>
  What the poller keeps true about the name it reported last: it is in the finished
  set, or it is the name of \<^verbatim>\<open>lastState\<close>.
\<close>

definition shown_inv :: "showStatus_vars \<Rightarrow> string list \<Rightarrow> bool" where
  "shown_inv v rs =
     (rs = [] \<or> finishedStates v (last rs) \<noteq> None \<or>
      last rs = PostCreateState.Name (lastState v))"

text \<open>
  Options and codespaces for the scenarios of the bulk delete: no flag set; a
  codespace last used 45 days before \<^verbatim>\<open>now\<close> and one last used 10 days before, both
  without unsaved changes; a clock that reads their two timestamps.
\<close>

definition testingDeleteOptions :: deleteOptions where
  "testingDeleteOptions =
     \<lparr>deleteAll = False, skipConfirm = False, codespaceName = [], repoFilter = [],
      keepDays = 0, orgName = [], userName = [], isInteractive = False, now = 1644883200000000000,
      prompter_Confirm = (\<lambda>message. Inl (Opaque ''no answer''))\<rparr>"

definition oldCodespace :: Codespace where
  "oldCodespace =
     disabledCodespace\<lparr>Codespace.Name := ''old'', PendingOperation := False,
       LastUsedAt := ''2022-01-01T00:00:00Z'', Repository_FullName := ''monalisa/Spoon-Knife''\<rparr>"

definition recentCodespace :: Codespace where
  "recentCodespace =
     disabledCodespace\<lparr>Codespace.Name := ''recent'', PendingOperation := False,
       LastUsedAt := ''2022-02-05T00:00:00Z'', Repository_FullName := ''monalisa/Spoon-Knife''\<rparr>"

definition badCodespace :: Codespace where
  "badCodespace =
     disabledCodespace\<lparr>Codespace.Name := ''bad'', PendingOperation := False,
       LastUsedAt := ''yesterday'', Repository_FullName := ''octocat/Hello-World''\<rparr>"

definition testingClock :: "string \<Rightarrow> error + int" where
  "testingClock s =
     (if s = ''2022-01-01T00:00:00Z'' then Inr 1640995200000000000
      else if s = ''2022-02-05T00:00:00Z'' then Inr 1644019200000000000
      else Inl (Opaque ''cannot parse''))"

text \<open>Options of \<^verbatim>\<open>Create\<close> with only the repository given.\<close>

definition testingCreateOptions :: createOptions where
  "testingCreateOptions =
     \<lparr>repo = ''monalisa/Spoon-Knife'', branch = [], location = [], machine = [],
      showStatus_flag = False, permissionsOptOut = False, devContainerPath = [],
      idleTimeout_Minutes = 0, retentionPeriod_Minutes = None\<rparr>"

text \<open>
  An application whose control plane knows one repository with the default branch
  \<^verbatim>\<open>main\<close>, no billable organization and no devcontainer definition, offers the
  given machines, and answers a create request as \<^verbatim>\<open>create\<close> says.
\<close>

definition testingCreateApp ::
  "Machine list \<Rightarrow> (CreateCodespaceParams \<Rightarrow> error + Codespace) \<Rightarrow> App" where
  "testingCreateApp machines create =
     testingApp (apiClientMock
       \<lparr>CreateCodespace := create,
        GetRepository := (\<lambda>nwo. Inr \<lparr>ID = 1, DefaultBranch = ''main''\<rparr>),
        GetCodespaceBillableOwner := (\<lambda>nwo. Inr None),
        GetCodespacesMachines := (\<lambda>repoID br loc path. Inr machines),
        ListDevContainers := (\<lambda>repoID br limit. Inr [])\<rparr>)"

definition basicLinux :: Machine where
  "basicLinux =
     \<lparr>Machine.Name = ''basicLinux32gb'', DisplayName = ''2 cores, 4 GB RAM, 32 GB storage'',
      PrebuildAvailability = []\<rparr>"

definition standardLinux :: Machine where
  "standardLinux =
     \<lparr>Machine.Name = ''standardLinux32gb'', DisplayName = ''4 cores, 8 GB RAM, 32 GB storage'',
      PrebuildAvailability = ''ready''\<rparr>"

text \<open>
  A control plane that asks for additional permissions until the request opts out of
  them, and then fails.
\<close>

definition createNeedsPermissions :: "CreateCodespaceParams \<Rightarrow> error + Codespace" where
  "createNeedsPermissions params =
     (if PermissionsOptOut params then Inl (Opaque ''HTTP 500'')
      else Inl (AcceptPermissionsRequiredError ''https://example.com/permissions''))"

text \<open>
  An application whose control plane lists the given codespaces and whose delete
  call fails exactly for the names \<^verbatim>\<open>failing\<close> gives an error for.
\<close>

definition testingDeleteApp :: "Codespace list \<Rightarrow> (string \<Rightarrow> error option) \<Rightarrow> App" where
  "testingDeleteApp codespaces failing =
     (testingApp (apiClientMock\<lparr>ListCodespaces := (\<lambda>org user. Inr codespaces),
                                DeleteCodespace := (\<lambda>name org user. failing name)\<rparr>))
       \<lparr>time_Parse_RFC3339 := testingClock\<rparr>"

text \<open>Further test doubles: each is the application above with one answer changed.\<close>

definition rebuildingApp :: "bool \<Rightarrow> App" where
  "rebuildingApp pending =
     testingApp (apiClientMock\<lparr>GetCodespace := (\<lambda>name includeConnection.
        Inr (disabledCodespace\<lparr>State := CodespaceStateRebuilding, PendingOperation := pending\<rparr>))\<rparr>)"

definition devcontainersApp :: "string list \<Rightarrow> App" where
  "devcontainersApp paths =
     testingApp (apiClientMock\<lparr>ListDevContainers := (\<lambda>repoID br limit.
        Inr (map (\<lambda>p. \<lparr>Path = p\<rparr>) paths))\<rparr>)"

definition failingFor :: "string list \<Rightarrow> string \<Rightarrow> error option" where
  "failingFor names name = (if name \<in> set names then Some (Opaque ''HTTP 500'') else None)"

definition answering :: "nat \<Rightarrow> App \<Rightarrow> App" where
  "answering i a =
     a\<lparr>hasTTY := True, io_CanPrompt := True,
       survey_Select := (\<lambda>name message options. Inr i)\<rparr>"

section \<open>Properties of the post-create status poller\<close>

lemma poller_loop_mono:
  "poller_loop states v = (ip, v', es) \<Longrightarrow> finishedStates v n \<noteq> None \<Longrightarrow>
   finishedStates v' n \<noteq> None"
proof (induction states v arbitrary: ip v' es rule: poller_loop.induct)
  case (1 v)
  then show ?case by simp
next
  case (2 state states v)
  show ?case
  proof (cases "finishedStates v (PostCreateState.Name state) \<noteq> None")
    case True
    with 2 show ?thesis by simp
  next
    case False
    show ?thesis using 2 False
      by (fastforce split: if_splits prod.splits)
  qed
qed

lemma poller_loop_not_reported:
  "poller_loop states v = (ip, v', es) \<Longrightarrow> finishedStates v n \<noteq> None \<Longrightarrow>
   n \<notin> set (reported es)"
proof (induction states v arbitrary: ip v' es rule: poller_loop.induct)
  case (1 v)
  then show ?case by simp
next
  case (2 state states v)
  show ?case
  proof (cases "finishedStates v (PostCreateState.Name state) \<noteq> None")
    case True
    with 2 show ?thesis by simp
  next
    case False
    show ?thesis using 2 False
      by (fastforce split: if_splits prod.splits)
  qed
qed

lemma poller_loop_adj:
  "poller_loop states v = (ip, v', es) \<Longrightarrow> shown_inv v rs \<Longrightarrow> distinct_adj rs \<Longrightarrow>
   distinct_adj (rs @ reported es) \<and> shown_inv v' (rs @ reported es)"
proof (induction states v arbitrary: ip v' es rs rule: poller_loop.induct)
  case (1 v)
  then show ?case by simp
next
  case (2 state states v)
  let ?n = "PostCreateState.Name state"
  show ?case
  proof (cases "finishedStates v ?n \<noteq> None")
    case True
    with 2 show ?thesis by simp
  next
    case nf: False
    show ?thesis
    proof (cases "?n \<noteq> PostCreateState.Name (lastState v)")
      case diff: True
      have adj: "distinct_adj (rs @ [?n])"
        using 2(5,6) nf diff by (auto simp: shown_inv_def distinct_adj_append_iff)
      show ?thesis
      proof (cases "Status state = PostCreateStateRunning")
        case True
        with 2(4) nf diff adj show ?thesis by (auto simp: shown_inv_def)
      next
        case False
        let ?v = "v\<lparr>finishedStates := (finishedStates v)(?n \<mapsto> True)\<rparr>"
        obtain ip1 v1 es1 where r: "poller_loop states ?v = (ip1, v1, es1)"
          by (metis prod_cases3)
        have i: "shown_inv ?v (rs @ [?n])"
          by (simp add: shown_inv_def)
        from "2.IH"(2)[OF _ diff False r i adj] nf
        have "distinct_adj ((rs @ [?n]) @ reported es1) \<and> shown_inv v1 ((rs @ [?n]) @ reported es1)"
          by simp
        moreover have "es = StartProgressIndicatorWithLabel ?n # StopProgressIndicator # es1" "v' = v1"
          using 2(4) nf diff False r by auto
        ultimately show ?thesis by simp
      qed
    next
      case same: False
      show ?thesis
      proof (cases "Status state = PostCreateStateRunning")
        case True
        with 2(4,5,6) nf same show ?thesis by auto
      next
        case False
        let ?v = "v\<lparr>finishedStates := (finishedStates v)(?n \<mapsto> True),
                    lastState := PostCreateState_zero\<rparr>"
        obtain ip1 v1 es1 where r: "poller_loop states ?v = (ip1, v1, es1)"
          by (metis prod_cases3)
        have i: "shown_inv ?v rs"
          using 2(5) same by (auto simp: shown_inv_def)
        from "2.IH"(3)[OF _ _ False r i 2(6)] nf same
        have "distinct_adj (rs @ reported es1) \<and> shown_inv v1 (rs @ reported es1)"
          by simp
        moreover have "es = StopProgressIndicator # es1" "v' = v1"
          using 2(4) nf same False r by auto
        ultimately show ?thesis by simp
      qed
    qed
  qed
qed

lemma reported_append: "reported (es @ fs) = reported es @ reported fs"
  by (induction es rule: reported.induct) auto

lemma reported_stopPolling: "reported (es @ [stopPolling]) = reported es"
  by (simp add: reported_append)

lemma poller_mono:
  "poller v states = (v', es) \<Longrightarrow> finishedStates v n \<noteq> None \<Longrightarrow>
   finishedStates v' n \<noteq> None \<and> n \<notin> set (reported es)"
  unfolding poller_def
  by (auto split: prod.splits if_splits simp: reported_stopPolling
      dest: poller_loop_mono poller_loop_not_reported)

lemma poller_adj:
  "poller v states = (v', es) \<Longrightarrow> shown_inv v rs \<Longrightarrow> distinct_adj rs \<Longrightarrow>
   distinct_adj (rs @ reported es) \<and> shown_inv v' (rs @ reported es)"
  unfolding poller_def
  by (auto split: prod.splits if_splits simp: reported_stopPolling shown_inv_def
      dest!: poller_loop_adj[where rs = rs])

lemma feed_mono:
  "feed v passes = (v', es) \<Longrightarrow> finishedStates v n \<noteq> None \<Longrightarrow>
   finishedStates v' n \<noteq> None \<and> n \<notin> set (reported es)"
proof (induction passes arbitrary: v v' es)
  case Nil
  then show ?case by simp
next
  case (Cons states rest)
  obtain v1 es1 where p: "poller v states = (v1, es1)" by force
  obtain v2 es2 where f: "feed v1 rest = (v2, es2)" by force
  from Cons.prems p f have e: "v' = v2" "es = es1 @ es2" by auto
  from poller_mono[OF p Cons.prems(2)]
  have 1: "finishedStates v1 n \<noteq> None" "n \<notin> set (reported es1)" by auto
  from Cons.IH[OF f 1(1)] 1(2) e show ?case by (simp add: reported_append)
qed

lemma feed_adj:
  "feed v passes = (v', es) \<Longrightarrow> shown_inv v rs \<Longrightarrow> distinct_adj rs \<Longrightarrow>
   distinct_adj (rs @ reported es) \<and> shown_inv v' (rs @ reported es)"
proof (induction passes arbitrary: v v' es rs)
  case Nil
  then show ?case by simp
next
  case (Cons states rest)
  obtain v1 es1 where p: "poller v states = (v1, es1)" by force
  obtain v2 es2 where f: "feed v1 rest = (v2, es2)" by force
  from Cons.prems p f have e: "v' = v2" "es = es1 @ es2" by auto
  from poller_adj[OF p Cons.prems(2,3)]
  have 1: "distinct_adj (rs @ reported es1)" "shown_inv v1 (rs @ reported es1)" by auto
  from Cons.IH[OF f 1(2) 1(1)] e show ?case by (simp add: reported_append)
qed

lemma feed_append:
  "feed v (ps @ qs) =
     (case feed v ps of (v1, es1) \<Rightarrow> (case feed v1 qs of (v2, es2) \<Rightarrow> (v2, es1 @ es2)))"
  by (induction ps arbitrary: v) (auto split: prod.splits)

text \<open>
  C1 (as amended). After any sequence of poll passes, a task name that is in the
  finished set stays there, is skipped by the scan of every later pass, and is never
  handed to the progress indicator again; and two consecutive reports never carry the
  same name, so a name is reported a second time only after a different task was
  reported in between.
\<close>

theorem poller_finished_names_stay_silent:
  assumes "feed showStatus_init ps = (v1, es1)" and "feed v1 qs = (v2, es2)"
  shows "(\<forall>n. finishedStates v1 n \<noteq> None \<longrightarrow>
            finishedStates v2 n \<noteq> None \<and> n \<notin> set (reported es2) \<and>
            (\<forall>state states. PostCreateState.Name state = n \<longrightarrow>
               poller_loop (state # states) v1 = poller_loop states v1))
         \<and> distinct_adj (reported (es1 @ es2))"
proof -
  have i: "shown_inv showStatus_init []" by (simp add: shown_inv_def)
  have f: "feed showStatus_init (ps @ qs) = (v2, es1 @ es2)"
    using assms by (simp add: feed_append)
  from feed_adj[OF f i] have "distinct_adj (reported (es1 @ es2))" by simp
  moreover have "finishedStates v2 n \<noteq> None \<and> n \<notin> set (reported es2)"
    if "finishedStates v1 n \<noteq> None" for n
    using feed_mono[OF assms(2) that] .
  ultimately show ?thesis by auto
qed

theorem poller_finished_names_stay_silent_witness:
  "finishedStates (fst (feed showStatus_init
        [[\<lparr>PostCreateState.Name = ''A'', Status = PostCreateStateTerminal\<rparr>]])) ''A'' \<noteq> None
   \<and> ''A'' \<notin> set (reported (snd (feed (fst (feed showStatus_init
        [[\<lparr>PostCreateState.Name = ''A'', Status = PostCreateStateTerminal\<rparr>]]))
        [[\<lparr>PostCreateState.Name = ''A'', Status = PostCreateStateRunning\<rparr>,
          \<lparr>PostCreateState.Name = ''B'', Status = PostCreateStateRunning\<rparr>]])))
   \<and> reported (snd (feed showStatus_init
        [[\<lparr>PostCreateState.Name = ''A'', Status = PostCreateStateTerminal\<rparr>],
         [\<lparr>PostCreateState.Name = ''A'', Status = PostCreateStateRunning\<rparr>,
          \<lparr>PostCreateState.Name = ''B'', Status = PostCreateStateRunning\<rparr>]])) = [''A'', ''B'']"
  using poller_finished_names_stay_silent[
    of "[[\<lparr>PostCreateState.Name = ''A'', Status = PostCreateStateTerminal\<rparr>]]"
       "fst (feed showStatus_init [[\<lparr>PostCreateState.Name = ''A'', Status = PostCreateStateTerminal\<rparr>]])"
       "snd (feed showStatus_init [[\<lparr>PostCreateState.Name = ''A'', Status = PostCreateStateTerminal\<rparr>]])"
       "[[\<lparr>PostCreateState.Name = ''A'', Status = PostCreateStateRunning\<rparr>,
          \<lparr>PostCreateState.Name = ''B'', Status = PostCreateStateRunning\<rparr>]]"
       "fst (feed (fst (feed showStatus_init [[\<lparr>PostCreateState.Name = ''A'', Status = PostCreateStateTerminal\<rparr>]]))
         [[\<lparr>PostCreateState.Name = ''A'', Status = PostCreateStateRunning\<rparr>,
          \<lparr>PostCreateState.Name = ''B'', Status = PostCreateStateRunning\<rparr>]])"
       "snd (feed (fst (feed showStatus_init [[\<lparr>PostCreateState.Name = ''A'', Status = PostCreateStateTerminal\<rparr>]]))
         [[\<lparr>PostCreateState.Name = ''A'', Status = PostCreateStateRunning\<rparr>,
          \<lparr>PostCreateState.Name = ''B'', Status = PostCreateStateRunning\<rparr>]])"]
  by (auto simp add: poller_def showStatus_init_def PostCreateState_zero_def)

text \<open>
  C1 (as stated) fails: a task that is Running, is displaced by another Running task
  and is then seen first again, is reported twice.
\<close>

theorem poller_reports_name_twice:
  "reported (snd (feed showStatus_init
     [[\<lparr>PostCreateState.Name = ''A'', Status = PostCreateStateRunning\<rparr>],
      [\<lparr>PostCreateState.Name = ''B'', Status = PostCreateStateRunning\<rparr>],
      [\<lparr>PostCreateState.Name = ''A'', Status = PostCreateStateRunning\<rparr>]])) = [''A'', ''B'', ''A'']
   \<and> \<not> distinct (reported (snd (feed showStatus_init
     [[\<lparr>PostCreateState.Name = ''A'', Status = PostCreateStateRunning\<rparr>],
      [\<lparr>PostCreateState.Name = ''B'', Status = PostCreateStateRunning\<rparr>],
      [\<lparr>PostCreateState.Name = ''A'', Status = PostCreateStateRunning\<rparr>]])))"
  by (simp add: poller_def showStatus_init_def PostCreateState_zero_def)

text \<open>
  C2. The stop flag is armed by the first pass without a task in progress and is never
  disarmed: after an idle pass and a pass with task B Running the flag is still set,
  and the pass in which B finishes asks to stop the polling at once, although only one
  idle pass followed the new task.
\<close>

theorem poller_stops_without_second_idle_pass:
  "breakNextState (fst (feed showStatus_init
      [[], [\<lparr>PostCreateState.Name = ''B'', Status = PostCreateStateRunning\<rparr>]]))
   \<and> snd (feed showStatus_init
      [[],
       [\<lparr>PostCreateState.Name = ''B'', Status = PostCreateStateRunning\<rparr>],
       [\<lparr>PostCreateState.Name = ''B'', Status = PostCreateStateTerminal\<rparr>]])
     = [StartProgressIndicatorWithLabel ''B'', StopProgressIndicator, stopPolling]"
  by (simp add: poller_def showStatus_init_def PostCreateState_zero_def)

text \<open>
  With the driver of the polling, \<^verbatim>\<open>showStatus\<close> then returns \<^verbatim>\<open>nil\<close>, and a
  fourth pass that would have shown a task C is never polled.
\<close>

lemma showStatus_returns_before_task_C:
  "showStatus
      [[],
       [\<lparr>PostCreateState.Name = ''B'', Status = PostCreateStateRunning\<rparr>],
       [\<lparr>PostCreateState.Name = ''B'', Status = PostCreateStateTerminal\<rparr>],
       [\<lparr>PostCreateState.Name = ''B'', Status = PostCreateStateTerminal\<rparr>,
        \<lparr>PostCreateState.Name = ''C'', Status = PostCreateStateRunning\<rparr>]]
     = (None, [StartProgressIndicatorWithLabel ''B'', StopProgressIndicator, stopPolling])"
  by (simp add: showStatus_def poller_def showStatus_init_def PostCreateState_zero_def)

text \<open>
  The parts of C2 that hold for every pass: the scan itself neither asks to stop nor
  touches the flag; a pass with a task in progress never stops and leaves the flag as
  it was; the first pass without progress only arms the flag; and two passes without
  progress in a row always end with the request to stop.
\<close>

lemma poller_loop_keeps_flag:
  "breakNextState (fst (snd (poller_loop states v))) = breakNextState v
   \<and> stopPolling \<notin> set (snd (snd (poller_loop states v)))"
  by (induction states v rule: poller_loop.induct) (auto split: prod.splits)

lemma poller_in_progress_never_stops:
  assumes "fst (poller_loop states v)"
  shows "stopPolling \<notin> set (snd (poller v states))
       \<and> breakNextState (fst (poller v states)) = breakNextState v"
  using assms poller_loop_keeps_flag[of states v]
  by (cases "poller_loop states v") (auto simp: poller_def)

lemma poller_first_idle_pass_arms:
  assumes "\<not> fst (poller_loop states v)" and "\<not> breakNextState v"
  shows "stopPolling \<notin> set (snd (poller v states)) \<and> breakNextState (fst (poller v states))"
  using assms poller_loop_keeps_flag[of states v]
  by (cases "poller_loop states v") (auto simp: poller_def)

lemma poller_idle_pass_when_armed_stops:
  assumes "\<not> fst (poller_loop states v)" and "breakNextState v"
  shows "stopPolling \<in> set (snd (poller v states))"
  using assms poller_loop_keeps_flag[of states v]
  by (cases "poller_loop states v") (auto simp: poller_def)

lemma poller_two_idle_passes_stop:
  assumes "\<not> fst (poller_loop s1 v)" and "\<not> fst (poller_loop s2 (fst (poller v s1)))"
  shows "stopPolling \<in> set (snd (poller v s1))
       \<or> stopPolling \<in> set (snd (poller (fst (poller v s1)) s2))"
proof (cases "breakNextState v")
  case True
  with assms(1) show ?thesis by (simp add: poller_idle_pass_when_armed_stops)
next
  case False
  with assms(1) have "breakNextState (fst (poller v s1))"
    by (simp add: poller_first_idle_pass_arms)
  with assms(2) show ?thesis by (simp add: poller_idle_pass_when_armed_stops)
qed

section \<open>Properties of the codespace lookup and of Rebuild\<close>

lemma ask_Select_events: "snd (ask_Select a n m os) = [Ask (Select n m os)]"
  by (simp add: ask_Select_def split: sum.splits)

lemma chooseCodespace_no_session: "e \<in> set (snd (chooseCodespace a)) \<Longrightarrow> \<not> is_session_event e"
  by (auto simp: chooseCodespace_def andThen_def wrapErr_def call_ListCodespaces_def
      chooseCodespaceFromList_def ask_Select_def Let_def
      split: prod.splits sum.splits if_splits)

lemma getOrChooseCodespace_resolved:
  assumes "resolves_to a name c"
  shows "fst (getOrChooseCodespace a name) =
           (if PendingOperation c
            then Inl (Errorf ''codespace is disabled while it has a pending operation: %s''
                        [PendingOperationDisabledReason c])
            else Inr c)"
  using assms
  by (auto simp: resolves_to_def getOrChooseCodespace_def andThen_def wrapErr_def call_GetCodespace_def
      split: prod.splits sum.splits if_splits)

lemma getOrChooseCodespace_no_session:
  "e \<in> set (snd (getOrChooseCodespace a name)) \<Longrightarrow> \<not> is_session_event e"
  using chooseCodespace_no_session[of e a]
  by (auto simp: getOrChooseCodespace_def andThen_def wrapErr_def call_GetCodespace_def
      split: prod.splits sum.splits if_splits)

text \<open>
  C4. Whenever the record that \<^verbatim>\<open>getOrChooseCodespace\<close> looks up (fetched by name
  or chosen from the list) has a pending operation, the lookup fails with the error that
  carries the record's reason string, \<^verbatim>\<open>Rebuild\<close> returns that error, and its run
  contains no call that opens, uses or closes a Live Share session: no session is
  opened and no rebuild is issued.
\<close>

theorem pending_operation_blocks_session:
  assumes "resolves_to a name c" and "PendingOperation c"
  shows "fst (getOrChooseCodespace a name) =
           Inl (Errorf ''codespace is disabled while it has a pending operation: %s''
                  [PendingOperationDisabledReason c])
       \<and> fst (Rebuild a name full) =
           Some (Errorf ''codespace is disabled while it has a pending operation: %s''
                  [PendingOperationDisabledReason c])
       \<and> (\<forall>e \<in> set (snd (Rebuild a name full)). \<not> is_session_event e)"
proof -
  have g: "fst (getOrChooseCodespace a name) =
           Inl (Errorf ''codespace is disabled while it has a pending operation: %s''
                  [PendingOperationDisabledReason c])"
    using getOrChooseCodespace_resolved[OF assms(1)] assms(2) by simp
  then obtain t where gt: "getOrChooseCodespace a name =
      (Inl (Errorf ''codespace is disabled while it has a pending operation: %s''
                  [PendingOperationDisabledReason c]), t)"
    by (cases "getOrChooseCodespace a name") auto
  have r: "Rebuild a name full = (Some (Errorf ''codespace is disabled while it has a pending operation: %s''
                  [PendingOperationDisabledReason c]), t)"
    by (simp add: Rebuild_def gt)
  have "\<forall>e \<in> set t. \<not> is_session_event e"
    using getOrChooseCodespace_no_session[of _ a name] gt by auto
  with g r show ?thesis by simp
qed

theorem pending_operation_blocks_session_witness:
  "resolves_to (testingApp apiClientMock) ''disabledCodespace'' disabledCodespace
   \<and> PendingOperation disabledCodespace
   \<and> Rebuild (testingApp apiClientMock) ''disabledCodespace'' False =
     (Some (Errorf ''codespace is disabled while it has a pending operation: %s''
              [''Some pending operation'']),
      [Call_GetCodespace ''disabledCodespace'' True])"
  using pending_operation_blocks_session[of "testingApp apiClientMock" "''disabledCodespace''"
          disabledCodespace False]
  by (simp add: resolves_to_def testingApp_def apiClientMock_def disabledCodespace_def
      Rebuild_def getOrChooseCodespace_def andThen_def wrapErr_def call_GetCodespace_def)

text \<open>
  C10 (as amended). For a codespace that \<^verbatim>\<open>Rebuild\<close> looks up and whose state is
  Rebuilding, the run never opens a Live Share session and never issues a rebuild
  request; and when the codespace has no pending operation, \<^verbatim>\<open>Rebuild\<close> returns
  \<^verbatim>\<open>nil\<close> right after printing that the codespace is already rebuilding.
\<close>

theorem rebuilding_codespace_is_left_alone:
  assumes "resolves_to a name c" and "State c = CodespaceStateRebuilding"
  shows "(\<forall>e \<in> set (snd (Rebuild a name full)). \<not> is_session_event e)
       \<and> (\<not> PendingOperation c \<longrightarrow>
            Rebuild a name full =
              (None, snd (getOrChooseCodespace a name) @
                     [Fprintf Out ''%s is already rebuilding\<newline>'' [Str (Codespace.Name c)]]))"
proof -
  obtain r t where gt: "getOrChooseCodespace a name = (r, t)" by force
  have r: "r = (if PendingOperation c
            then Inl (Errorf ''codespace is disabled while it has a pending operation: %s''
                        [PendingOperationDisabledReason c])
            else Inr c)"
    using getOrChooseCodespace_resolved[OF assms(1)] gt by simp
  have t: "\<forall>e \<in> set t. \<not> is_session_event e"
    using getOrChooseCodespace_no_session[of _ a name] gt by auto
  show ?thesis
  proof (cases "PendingOperation c")
    case True
    with r gt have "Rebuild a name full =
       (Some (Errorf ''codespace is disabled while it has a pending operation: %s''
                        [PendingOperationDisabledReason c]), t)"
      by (simp add: Rebuild_def)
    with t True show ?thesis by simp
  next
    case False
    with r gt assms(2) have "Rebuild a name full =
       (None, t @ [Fprintf Out ''%s is already rebuilding\<newline>'' [Str (Codespace.Name c)]])"
      by (simp add: Rebuild_def)
    with t gt show ?thesis by simp
  qed
qed

theorem rebuilding_codespace_is_left_alone_witness:
  "resolves_to (rebuildingApp False) ''cs''
     (disabledCodespace\<lparr>State := CodespaceStateRebuilding, PendingOperation := False\<rparr>)
   \<and> Rebuild (rebuildingApp False) ''cs'' True
     = (None, [Call_GetCodespace ''cs'' True,
               Fprintf Out ''%s is already rebuilding\<newline>'' [Str ''disabledCodespace'']])"
  using rebuilding_codespace_is_left_alone[of "rebuildingApp False" "''cs''"
     "disabledCodespace\<lparr>State := CodespaceStateRebuilding, PendingOperation := False\<rparr>" True]
  by (simp add: resolves_to_def rebuildingApp_def testingApp_def apiClientMock_def
      disabledCodespace_def getOrChooseCodespace_def andThen_def wrapErr_def call_GetCodespace_def)

text \<open>
  C10 (as stated) fails: a codespace that is Rebuilding and has a pending operation
  makes \<^verbatim>\<open>Rebuild\<close> return the pending-operation error, not success.
\<close>

theorem rebuilding_codespace_with_pending_operation_fails:
  "State (disabledCodespace\<lparr>State := CodespaceStateRebuilding, PendingOperation := True\<rparr>)
     = CodespaceStateRebuilding
   \<and> resolves_to (rebuildingApp True) ''cs''
     (disabledCodespace\<lparr>State := CodespaceStateRebuilding, PendingOperation := True\<rparr>)
   \<and> Rebuild (rebuildingApp True) ''cs'' False
     = (Some (Errorf ''codespace is disabled while it has a pending operation: %s''
              [''Some pending operation'']),
        [Call_GetCodespace ''cs'' True])"
  by (simp add: resolves_to_def rebuildingApp_def testingApp_def apiClientMock_def
      disabledCodespace_def Rebuild_def getOrChooseCodespace_def andThen_def wrapErr_def
      call_GetCodespace_def)

section \<open>Properties of the bulk delete\<close>

lemma Delete_loop_skip_k:
  assumes "\<not> (spec_name_match nf c \<and> spec_repo_match a opts c \<and>
              (keepDays opts = 0 \<or> (\<exists>t. time_Parse_RFC3339 a (LastUsedAt c) = Inr t \<and> t \<le> k)))"
    and "\<not> unparseable a opts nf c"
  shows "Delete_loop a opts nf k (c # cs) = Delete_loop a opts nf k cs"
  using assms
  by (auto simp: unparseable_def spec_name_match_def spec_repo_match_def word_gt_0
      split: sum.splits)

lemma Delete_loop_skip:
  assumes "\<not> spec_survives a opts nf c" and "\<not> unparseable a opts nf c"
    and "k = spec_cutoff a opts"
  shows "Delete_loop a opts nf k (c # cs) = Delete_loop a opts nf k cs"
proof (rule Delete_loop_skip_k[OF _ assms(2)])
  show "\<not> (spec_name_match nf c \<and> spec_repo_match a opts c \<and>
              (keepDays opts = 0 \<or> (\<exists>t. time_Parse_RFC3339 a (LastUsedAt c) = Inr t \<and> t \<le> k)))"
    using assms(1,3) by (auto simp: spec_survives_def spec_old_enough_def split: sum.splits)
qed

lemma Delete_loop_unparseable:
  assumes "unparseable a opts nf c"
  shows "\<exists>err. Delete_loop a opts nf cutoff (c # cs) =
           (Inl (Wrapf ''error parsing last_used_at timestamp %q: %w'' [LastUsedAt c] err), [])"
  using assms
  by (auto simp: unparseable_def spec_name_match_def spec_repo_match_def split: sum.splits)

lemma Delete_loop_keep_k:
  assumes "spec_name_match nf c" and "spec_repo_match a opts c"
    and "keepDays opts = 0 \<or> (\<exists>t. time_Parse_RFC3339 a (LastUsedAt c) = Inr t \<and> t \<le> k)"
  shows "Delete_loop a opts nf k (c # cs) =
         (if \<not> skipConfirm opts then
            andThen (wrapErr ''unable to confirm: %w''
                       (confirmDeletion (prompter_Confirm opts) c (isInteractive opts)))
              (\<lambda>confirmed.
                 if \<not> confirmed
                 then Delete_loop a opts nf k cs
                 else andThen (Delete_loop a opts nf k cs)
                        (\<lambda>rest. (Inr (c # rest), [])))
          else andThen (Delete_loop a opts nf k cs)
                 (\<lambda>rest. (Inr (c # rest), [])))"
  using assms
  by (auto simp: spec_name_match_def spec_repo_match_def word_gt_0 split: sum.splits)

lemma Delete_loop_keep:
  assumes "spec_survives a opts nf c" and "k = spec_cutoff a opts"
  shows "Delete_loop a opts nf k (c # cs) =
         (if \<not> skipConfirm opts then
            andThen (wrapErr ''unable to confirm: %w''
                       (confirmDeletion (prompter_Confirm opts) c (isInteractive opts)))
              (\<lambda>confirmed.
                 if \<not> confirmed
                 then Delete_loop a opts nf k cs
                 else andThen (Delete_loop a opts nf k cs)
                        (\<lambda>rest. (Inr (c # rest), [])))
          else andThen (Delete_loop a opts nf k cs)
                 (\<lambda>rest. (Inr (c # rest), [])))"
proof (rule Delete_loop_keep_k)
  show "spec_name_match nf c" "spec_repo_match a opts c"
    using assms(1) by (auto simp: spec_survives_def)
  show "keepDays opts = 0 \<or> (\<exists>t. time_Parse_RFC3339 a (LastUsedAt c) = Inr t \<and> t \<le> k)"
    using assms by (auto simp: spec_survives_def spec_old_enough_def split: sum.splits)
qed

lemma survives_not_unparseable: "spec_survives a opts nf c \<Longrightarrow> \<not> unparseable a opts nf c"
  by (auto simp: spec_survives_def unparseable_def spec_old_enough_def word_gt_0 split: sum.splits)

lemma Delete_loop_result:
  "k = spec_cutoff a opts \<Longrightarrow>
   Delete_loop a opts nf k cs = (Inr xs, t) \<Longrightarrow>
   xs = filter (\<lambda>c. spec_survives a opts nf c \<and> confirmed_by opts c) cs
   \<and> (\<forall>c \<in> set cs. \<not> unparseable a opts nf c)"
proof (induction cs arbitrary: xs t)
  case Nil
  then show ?case by simp
next
  case (Cons c cs)
  note kk = Cons.prems(1)
  note run = Cons.prems(2)
  consider (u) "unparseable a opts nf c" | (k) "spec_survives a opts nf c"
    | (s) "\<not> spec_survives a opts nf c" "\<not> unparseable a opts nf c" by blast
  then show ?case
  proof cases
    case u
    from Delete_loop_unparseable[OF u, of k cs] run show ?thesis by auto
  next
    case s
    from run have "Delete_loop a opts nf k cs = (Inr xs, t)"
      by (simp only: Delete_loop_skip[OF s kk])
    from Cons.IH[OF kk this] s show ?thesis by simp
  next
    case k
    note nu = survives_not_unparseable[OF k]
    note step = Delete_loop_keep[OF k kk, of cs]
    obtain r1 t1 where l: "Delete_loop a opts nf k cs = (r1, t1)" by force
    show ?thesis
    proof (cases "skipConfirm opts")
      case True
      from run have "andThen (Delete_loop a opts nf k cs) (\<lambda>rest. (Inr (c # rest), [])) = (Inr xs, t)"
        by (simp only: step True not_True_eq_False if_False)
      with l obtain rest where r: "r1 = Inr rest" "xs = c # rest"
        by (auto simp: andThen_def split: sum.splits)
      from Cons.IH[OF kk, of rest t1] l r k True nu show ?thesis
        by (auto simp: confirmed_by_def)
    next
      case False
      obtain r2 t2 where c: "confirmDeletion (prompter_Confirm opts) c (isInteractive opts) = (r2, t2)"
        by force
      from run have run': "andThen (wrapErr ''unable to confirm: %w''
                       (confirmDeletion (prompter_Confirm opts) c (isInteractive opts)))
              (\<lambda>confirmed.
                 if \<not> confirmed
                 then Delete_loop a opts nf k cs
                 else andThen (Delete_loop a opts nf k cs)
                        (\<lambda>rest. (Inr (c # rest), []))) = (Inr xs, t)"
        by (simp only: step False not_False_eq_True if_True)
      from run' c obtain b where b: "r2 = Inr b"
        by (auto simp: andThen_def wrapErr_def split: sum.splits)
      show ?thesis
      proof (cases b)
        case True
        with run' l c b obtain rest where r: "r1 = Inr rest" "xs = c # rest"
          by (auto simp: andThen_def wrapErr_def split: sum.splits)
        from Cons.IH[OF kk, of rest t1] l r k True b c nu show ?thesis
          by (auto simp: confirmed_by_def)
      next
        case nb: False
        with run' l c b have r: "r1 = Inr xs"
          by (auto simp: andThen_def wrapErr_def split: sum.splits)
        from Cons.IH[OF kk, of xs t1] l r k nb b c False nu show ?thesis
          by (auto simp: confirmed_by_def)
      qed
    qed
  qed
qed

lemma Delete_loop_hard_error:
  "k = spec_cutoff a opts \<Longrightarrow>
   c \<in> set cs \<Longrightarrow> unparseable a opts nf c \<Longrightarrow>
   \<exists>err. fst (Delete_loop a opts nf k cs) = Inl err"
  using Delete_loop_result[of k a opts nf cs]
  by (cases "Delete_loop a opts nf k cs";
      cases "fst (Delete_loop a opts nf k cs)") auto

lemma Delete_loop_events:
  "e \<in> set (snd (Delete_loop a opts nf cutoff cs)) \<Longrightarrow> is_Ask e"
proof (induction cs)
  case Nil
  then show ?case by simp
next
  case (Cons c cs)
  then show ?case
    by (auto simp: andThen_def wrapErr_def confirmDeletion_def
        split: if_splits sum.splits bool.splits prod.splits)
qed

lemma cutoff_eq:
  "lastUpdatedCutoffTime a opts = spec_cutoff a opts"
  by (simp add: lastUpdatedCutoffTime_def spec_cutoff_def)

lemma Delete_loop_no_prompt:
  assumes "k = spec_cutoff a opts"
    and "\<forall>c \<in> set cs. \<not> unparseable a opts nf c"
    and "\<forall>c \<in> set cs. spec_survives a opts nf c \<longrightarrow> skipConfirm opts \<or> \<not> hasUnsavedChanges c"
  shows "Delete_loop a opts nf k cs = (Inr (filter (spec_survives a opts nf) cs), [])"
  using assms(2,3)
proof (induction cs)
  case Nil
  then show ?case by simp
next
  case (Cons c cs)
  then have ih: "Delete_loop a opts nf k cs = (Inr (filter (spec_survives a opts nf) cs), [])"
    by simp
  show ?case
  proof (cases "spec_survives a opts nf c")
    case True
    with Cons.prems have "skipConfirm opts \<or> \<not> hasUnsavedChanges c" by simp
    then show ?thesis
      by (simp only: Delete_loop_keep[OF True assms(1)] ih)
         (auto simp: True andThen_def wrapErr_def confirmDeletion_def)
  next
    case False
    from Cons.prems have nu: "\<not> unparseable a opts nf c" by simp
    show ?thesis
      by (simp only: Delete_loop_skip[OF False nu assms(1)] ih) (simp add: False)
  qed
qed

lemma Delete_fetch_events:
  "e \<in> set (snd (Delete_fetch a opts)) \<Longrightarrow> \<not> is_DeleteCodespace e"
  by (auto simp: Delete_fetch_def andThen_def wrapErr_def call_ListCodespaces_def
      call_GetCodespace_def call_GetOrgMemberCodespace_def chooseCodespaceFromList_def
      ask_Select_def Let_def
      split: prod.splits sum.splits if_splits)

lemma Delete_unfold:
  assumes "Delete_fetch a opts = (Inr (cs, nf), t0)"
    and "Delete_loop a opts nf (lastUpdatedCutoffTime a opts) cs = (r, t1)"
  shows "Delete a opts =
           (case r of
              Inl err \<Rightarrow> (Inl err, t0 @ t1)
            | Inr xs \<Rightarrow>
                if xs = [] then (Inl (New ''no codespaces to delete''), t0 @ t1)
                else (fst (Delete_execute a opts xs), t0 @ t1 @ snd (Delete_execute a opts xs)))"
  using assms
  by (auto simp: Delete_def andThen_def split: sum.splits prod.splits)

lemma not_delete_if_Ask: "is_Ask e \<Longrightarrow> \<not> is_DeleteCodespace e"
  by (cases e) auto

text \<open>
  C6 (as stated) fails: a candidate whose last-used-at timestamp cannot be parsed is
  skipped without an error when the name or the repository test has already excluded
  it, since the loop reads the timestamp only after these two tests (lines 315 to
  322). With a repository filter and \<^verbatim>\<open>keepDays = 30\<close>, a candidate of another
  repository with the timestamp \<^verbatim>\<open>yesterday\<close> is passed over and the run deletes the
  other candidate and succeeds.
\<close>

theorem unparseable_timestamp_is_skipped:
  "time_Parse_RFC3339 (testingDeleteApp [badCodespace, oldCodespace] (failingFor []))
      (LastUsedAt badCodespace) = Inl (Opaque ''cannot parse'')
   \<and> Delete (testingDeleteApp [badCodespace, oldCodespace] (failingFor []))
        (testingDeleteOptions\<lparr>repoFilter := ''monalisa/Spoon-Knife'', keepDays := 30\<rparr>)
     = (Inr (),
        [StartProgressIndicatorWithLabel ''Fetching codespaces'',
         Call_ListCodespaces [] [], StopProgressIndicator,
         StartProgressIndicatorWithLabel ''Deleting codespace'',
         Call_DeleteCodespace ''old'' [] [],
         StopProgressIndicator])"
  by (simp add: Delete_def Delete_fetch_def Delete_execute_def deleteTask_def
      lastUpdatedCutoffTime_def utcAddDate_def andThen_def wrapErr_def
      call_ListCodespaces_def confirmDeletion_def hasUnsavedChanges_def
      testingDeleteApp_def testingApp_def apiClientMock_def testingDeleteOptions_def
      failingFor_def testingClock_def badCodespace_def oldCodespace_def
      disabledCodespace_def)

text \<open>
  C6 (as amended). With the candidates and the name filter that the fetch yields, and
  with \<^verbatim>\<open>now - keepDays\<close> read as \<^verbatim>\<open>now.AddDate(0, 0, -keepDays)\<close>: whenever the loop
  of \<^verbatim>\<open>Delete\<close> ends without an error, the codespaces it keeps are exactly the
  candidates that satisfy the name, repository and age predicates of the spec and that
  the confirmation gate let through; when confirmation is skipped or no surviving
  candidate has unsaved changes, and every timestamp the age test reads can be parsed,
  the loop ends without an error and without a prompt and keeps exactly the
  intersection of the three predicates; a candidate that passes the name and the
  repository test and whose timestamp cannot be parsed, with \<^verbatim>\<open>keepDays > 0\<close>, makes
  \<^verbatim>\<open>Delete\<close> fail, with no delete call; a candidate that the name or the repository
  test excludes is passed over whatever its timestamp is; and when the loop keeps
  nothing, \<^verbatim>\<open>Delete\<close> fails with "no codespaces to delete", with no delete call.
  In the witness a codespace last used 45 days ago survives \<^verbatim>\<open>keepDays = 30\<close> and
  one last used 10 days ago does not, and a sole candidate with the timestamp
  \<^verbatim>\<open>yesterday\<close> makes the run fail.
\<close>

theorem delete_survivors_are_the_intersection:
  assumes "Delete_fetch a opts = (Inr (cs, nf), t0)"
  shows "(\<forall>xs t. Delete_loop a opts nf (lastUpdatedCutoffTime a opts) cs
                   = (Inr xs, t) \<longrightarrow>
            xs = filter (\<lambda>c. spec_survives a opts nf c \<and> confirmed_by opts c) cs)
       \<and> ((\<forall>c \<in> set cs. \<not> unparseable a opts nf c) \<and>
          (\<forall>c \<in> set cs. spec_survives a opts nf c \<longrightarrow> skipConfirm opts \<or> \<not> hasUnsavedChanges c) \<longrightarrow>
            Delete_loop a opts nf (lastUpdatedCutoffTime a opts) cs
              = (Inr (filter (spec_survives a opts nf) cs), []))
       \<and> ((\<exists>c \<in> set cs. unparseable a opts nf c) \<longrightarrow>
            (\<exists>err. fst (Delete a opts) = Inl err) \<and>
            (\<forall>e \<in> set (snd (Delete a opts)). \<not> is_DeleteCodespace e))
       \<and> (\<forall>c rest. \<not> (spec_name_match nf c \<and> spec_repo_match a opts c) \<longrightarrow>
            Delete_loop a opts nf (lastUpdatedCutoffTime a opts) (c # rest)
              = Delete_loop a opts nf (lastUpdatedCutoffTime a opts) rest)
       \<and> (fst (Delete_loop a opts nf (lastUpdatedCutoffTime a opts) cs)
             = Inr [] \<longrightarrow>
            fst (Delete a opts) = Inl (New ''no codespaces to delete'') \<and>
            (\<forall>e \<in> set (snd (Delete a opts)). \<not> is_DeleteCodespace e))"
proof -
  let ?k = "lastUpdatedCutoffTime a opts"
  obtain r t1 where l: "Delete_loop a opts nf ?k cs = (r, t1)" by force
  note D = Delete_unfold[OF assms l]
  have t0: "\<forall>e \<in> set t0. \<not> is_DeleteCodespace e"
    using Delete_fetch_events[of _ a opts] assms by auto
  have t1: "\<forall>e \<in> set t1. \<not> is_DeleteCodespace e"
    using Delete_loop_events[of _ a opts nf ?k cs] l not_delete_if_Ask by auto
  have 1: "xs = filter (\<lambda>c. spec_survives a opts nf c \<and> confirmed_by opts c) cs"
    if "Delete_loop a opts nf ?k cs = (Inr xs, t)" for xs t
    using Delete_loop_result[OF cutoff_eq that] by simp
  have 2: "Delete_loop a opts nf ?k cs = (Inr (filter (spec_survives a opts nf) cs), [])"
    if "\<forall>c \<in> set cs. \<not> unparseable a opts nf c"
       "\<forall>c \<in> set cs. spec_survives a opts nf c \<longrightarrow> skipConfirm opts \<or> \<not> hasUnsavedChanges c"
    using Delete_loop_no_prompt[OF cutoff_eq that] .
  have 3: "(\<exists>err. fst (Delete a opts) = Inl err) \<and> (\<forall>e \<in> set (snd (Delete a opts)). \<not> is_DeleteCodespace e)"
    if "\<exists>c \<in> set cs. unparseable a opts nf c"
  proof -
    from that obtain c where "c \<in> set cs" "unparseable a opts nf c" by blast
    from Delete_loop_hard_error[OF cutoff_eq this] l obtain err where "r = Inl err" by auto
    with D t0 t1 show ?thesis by auto
  qed
  have 4: "fst (Delete a opts) = Inl (New ''no codespaces to delete'') \<and>
           (\<forall>e \<in> set (snd (Delete a opts)). \<not> is_DeleteCodespace e)"
    if "fst (Delete_loop a opts nf ?k cs) = Inr []"
    using that l D t0 t1 by auto
  have 5: "Delete_loop a opts nf ?k (c # rest) = Delete_loop a opts nf ?k rest"
    if "\<not> (spec_name_match nf c \<and> spec_repo_match a opts c)" for c rest
    using that by (auto simp: spec_name_match_def spec_repo_match_def)
  show ?thesis
    using 1 2 3 4 5 by blast
qed

lemma old_survives:
  "spec_survives (testingDeleteApp cs f) (testingDeleteOptions\<lparr>deleteAll := True, keepDays := 30\<rparr>) [] oldCodespace"
  by (simp add: spec_survives_def spec_name_match_def spec_repo_match_def spec_old_enough_def
      spec_cutoff_def utcAddDate_def
      testingDeleteApp_def testingApp_def testingDeleteOptions_def oldCodespace_def testingClock_def)

lemma recent_excluded:
  "\<not> spec_survives (testingDeleteApp cs f) (testingDeleteOptions\<lparr>deleteAll := True, keepDays := 30\<rparr>) [] recentCodespace"
  by (simp add: spec_survives_def spec_name_match_def spec_repo_match_def spec_old_enough_def
      spec_cutoff_def utcAddDate_def
      testingDeleteApp_def testingApp_def testingDeleteOptions_def recentCodespace_def testingClock_def)

lemma fetch_all:
  "Delete_fetch (testingDeleteApp cs f) (testingDeleteOptions\<lparr>deleteAll := True, keepDays := d\<rparr>) =
     (Inr (cs, []), [StartProgressIndicatorWithLabel ''Fetching codespaces'',
                     Call_ListCodespaces [] [], StopProgressIndicator])"
  by (simp add: Delete_fetch_def andThen_def wrapErr_def call_ListCodespaces_def
      testingDeleteApp_def testingApp_def apiClientMock_def testingDeleteOptions_def)

theorem delete_survivors_are_the_intersection_witness:
  "Delete_fetch (testingDeleteApp [oldCodespace, recentCodespace] (failingFor []))
       (testingDeleteOptions\<lparr>deleteAll := True, keepDays := 30\<rparr>) =
     (Inr ([oldCodespace, recentCodespace], []),
      [StartProgressIndicatorWithLabel ''Fetching codespaces'',
       Call_ListCodespaces [] [], StopProgressIndicator])
   \<and> Delete_loop (testingDeleteApp [oldCodespace, recentCodespace] (failingFor []))
       (testingDeleteOptions\<lparr>deleteAll := True, keepDays := 30\<rparr>) []
       (lastUpdatedCutoffTime
          (testingDeleteApp [oldCodespace, recentCodespace] (failingFor []))
          (testingDeleteOptions\<lparr>deleteAll := True, keepDays := 30\<rparr>))
       [oldCodespace, recentCodespace] = (Inr [oldCodespace], [])
   \<and> filter (spec_survives (testingDeleteApp [oldCodespace, recentCodespace] (failingFor []))
               (testingDeleteOptions\<lparr>deleteAll := True, keepDays := 30\<rparr>) [])
        [oldCodespace, recentCodespace] = [oldCodespace]
   \<and> unparseable (testingDeleteApp [badCodespace] (failingFor []))
        (testingDeleteOptions\<lparr>deleteAll := True, keepDays := 30\<rparr>) [] badCodespace
   \<and> isl (fst (Delete (testingDeleteApp [badCodespace] (failingFor []))
                 (testingDeleteOptions\<lparr>deleteAll := True, keepDays := 30\<rparr>)))"
proof -
  let ?a = "testingDeleteApp [oldCodespace, recentCodespace] (failingFor [])"
  let ?o = "testingDeleteOptions\<lparr>deleteAll := True, keepDays := 30\<rparr>"
  have u: "\<not> unparseable ?a ?o [] c" if "c \<in> set [oldCodespace, recentCodespace]" for c
    using that
    by (auto simp: unparseable_def testingDeleteApp_def testingApp_def oldCodespace_def
        recentCodespace_def testingClock_def)
  have s: "\<not> hasUnsavedChanges c" if "c \<in> set [oldCodespace, recentCodespace]" for c
    using that
    by (auto simp: hasUnsavedChanges_def oldCodespace_def recentCodespace_def disabledCodespace_def)
  have b: "unparseable (testingDeleteApp [badCodespace] (failingFor [])) ?o [] badCodespace"
    by (simp add: unparseable_def spec_name_match_def spec_repo_match_def
        testingDeleteApp_def testingApp_def testingDeleteOptions_def badCodespace_def
        testingClock_def)
  from delete_survivors_are_the_intersection[OF fetch_all, of "[badCodespace]" "failingFor []" 30] b
  have e: "isl (fst (Delete (testingDeleteApp [badCodespace] (failingFor [])) ?o))"
    by auto
  from delete_survivors_are_the_intersection[OF fetch_all, of "[oldCodespace, recentCodespace]" "failingFor []" 30]
    u s old_survives recent_excluded fetch_all
  have "Delete_loop ?a ?o [] (lastUpdatedCutoffTime ?a ?o) [oldCodespace, recentCodespace]
          = (Inr [oldCodespace], [])"
    by simp
  with b e old_survives recent_excluded fetch_all show ?thesis by simp
qed

lemma errgroup_Wait_iff: "errgroup_Wait rs = None \<longleftrightarrow> (\<forall>r \<in> set rs. r = None)"
  by (induction rs rule: errgroup_Wait.induct) auto

lemma deleteTask_fst:
  "fst (deleteTask a opts n) = DeleteCodespace (apiClient a) n (orgName opts) (userName opts)"
  by (simp add: deleteTask_def split: option.splits)

lemma tasks_delete_calls:
  "filter is_DeleteCodespace (concat (map (\<lambda>c. snd (deleteTask a opts (Codespace.Name c))) xs)) =
   map (\<lambda>c. Call_DeleteCodespace (Codespace.Name c) (orgName opts) (userName opts)) xs"
  by (induction xs) (auto simp: deleteTask_def split: option.splits)

lemma tasks_log_lines:
  "length (filter is_ErrLogger_line (concat (map (\<lambda>c. snd (deleteTask a opts (Codespace.Name c))) xs))) =
   length (filter (\<lambda>c. DeleteCodespace (apiClient a) (Codespace.Name c) (orgName opts) (userName opts) \<noteq> None) xs)"
  by (induction xs) (auto simp: deleteTask_def split: option.splits)

lemma tasks_only_delete:
  "e \<in> set (concat (map (\<lambda>c. snd (deleteTask a opts (Codespace.Name c))) xs)) \<Longrightarrow>
   is_network_call e \<Longrightarrow> is_DeleteCodespace e"
  by (induction xs) (auto simp: deleteTask_def split: option.splits)

lemma tasks_failure_logged:
  "c \<in> set xs \<Longrightarrow>
   DeleteCodespace (apiClient a) (Codespace.Name c) (orgName opts) (userName opts) = Some err \<Longrightarrow>
   Fprintf ErrLogger ''error deleting codespace %q: %v\<newline>'' [Str (Codespace.Name c), ErrArg err]
     \<in> set (concat (map (\<lambda>c. snd (deleteTask a opts (Codespace.Name c))) xs))"
  by (induction xs) (auto simp: deleteTask_def split: option.splits)

lemma Delete_execute_snd:
  "snd (Delete_execute a opts xs) =
     StartProgressIndicatorWithLabel (if length xs > 1 then ''Deleting codespaces'' else ''Deleting codespace'')
       # concat (map (\<lambda>c. snd (deleteTask a opts (Codespace.Name c))) xs) @ [StopProgressIndicator]"
  by (simp add: Delete_execute_def Let_def comp_def)

lemma Delete_execute_fst:
  "fst (Delete_execute a opts xs) =
     (if 0 < length (filter (\<lambda>c. DeleteCodespace (apiClient a) (Codespace.Name c) (orgName opts) (userName opts) \<noteq> None) xs)
      then Inl (New ''some codespaces failed to delete'') else Inr ())"
proof -
  let ?rs = "map fst (map (\<lambda>c. deleteTask a opts (Codespace.Name c)) xs)"
  have "errgroup_Wait ?rs = None \<longleftrightarrow>
        (\<forall>c \<in> set xs. DeleteCodespace (apiClient a) (Codespace.Name c) (orgName opts) (userName opts) = None)"
    by (simp add: errgroup_Wait_iff deleteTask_fst)
  moreover have "0 < length (filter (\<lambda>c. DeleteCodespace (apiClient a) (Codespace.Name c) (orgName opts) (userName opts) \<noteq> None) xs)
       \<longleftrightarrow> \<not> (\<forall>c \<in> set xs. DeleteCodespace (apiClient a) (Codespace.Name c) (orgName opts) (userName opts) = None)"
    by (auto simp: filter_empty_conv)
  ultimately show ?thesis
    by (cases "errgroup_Wait ?rs") (auto simp: Delete_execute_def Let_def)
qed

text \<open>
  C3. When N codespaces survive filtering and confirmation (N > 0) and K of their
  delete calls fail: the run makes one delete call for each of the N codespaces,
  whatever the others return; every failure is logged with the name of its codespace
  and the error, K lines in all; \<^verbatim>\<open>Delete\<close> returns the error "some codespaces
  failed to delete" if and only if K > 0, and \<^verbatim>\<open>nil\<close> otherwise; and the tasks
  make no call to the control plane other than the N delete calls, so that what was
  deleted stays deleted. The tasks are run in the order of the slice.
\<close>

theorem bulk_delete_runs_every_task:
  assumes "Delete_fetch a opts = (Inr (cs, nf), t0)"
    and "Delete_loop a opts nf (lastUpdatedCutoffTime a opts) cs = (Inr xs, t1)"
    and "xs \<noteq> []"
    and "K = length (filter (\<lambda>c. DeleteCodespace (apiClient a) (Codespace.Name c)
                                    (orgName opts) (userName opts) \<noteq> None) xs)"
  shows "\<exists>t2. snd (Delete a opts) = t0 @ t1 @ t2
           \<and> filter is_DeleteCodespace t2 =
               map (\<lambda>c. Call_DeleteCodespace (Codespace.Name c) (orgName opts) (userName opts)) xs
           \<and> (\<forall>e \<in> set t2. is_network_call e \<longrightarrow> is_DeleteCodespace e)
           \<and> (\<forall>c \<in> set xs. \<forall>err.
                 DeleteCodespace (apiClient a) (Codespace.Name c) (orgName opts) (userName opts) = Some err \<longrightarrow>
                 Fprintf ErrLogger ''error deleting codespace %q: %v\<newline>''
                   [Str (Codespace.Name c), ErrArg err] \<in> set t2)
           \<and> length (filter is_ErrLogger_line t2) = K
           \<and> K \<le> length xs
           \<and> fst (Delete a opts) =
               (if 0 < K then Inl (New ''some codespaces failed to delete'') else Inr ())"
proof -
  let ?t2 = "snd (Delete_execute a opts xs)"
  let ?ts = "concat (map (\<lambda>c. snd (deleteTask a opts (Codespace.Name c))) xs)"
  from Delete_unfold[OF assms(1,2)] assms(3)
  have D: "Delete a opts = (fst (Delete_execute a opts xs), t0 @ t1 @ ?t2)" by simp
  have 1: "filter is_DeleteCodespace ?t2 =
             map (\<lambda>c. Call_DeleteCodespace (Codespace.Name c) (orgName opts) (userName opts)) xs"
    by (simp add: Delete_execute_snd tasks_delete_calls)
  have 2: "\<forall>e \<in> set ?t2. is_network_call e \<longrightarrow> is_DeleteCodespace e"
    using tasks_only_delete[of _ a opts xs] by (auto simp: Delete_execute_snd)
  have 3: "\<forall>c \<in> set xs. \<forall>err.
                 DeleteCodespace (apiClient a) (Codespace.Name c) (orgName opts) (userName opts) = Some err \<longrightarrow>
                 Fprintf ErrLogger ''error deleting codespace %q: %v\<newline>''
                   [Str (Codespace.Name c), ErrArg err] \<in> set ?t2"
    using tasks_failure_logged[of _ xs a opts] by (auto simp: Delete_execute_snd)
  have 4: "length (filter is_ErrLogger_line ?t2) = K"
    by (simp add: Delete_execute_snd tasks_log_lines assms(4))
  have 5: "K \<le> length xs" by (simp add: assms(4))
  have 6: "fst (Delete a opts) =
               (if 0 < K then Inl (New ''some codespaces failed to delete'') else Inr ())"
    using D by (simp add: Delete_execute_fst assms(4))
  from D 1 2 3 4 5 6 show ?thesis by (intro exI[of _ ?t2]) simp
qed

theorem bulk_delete_runs_every_task_witness:
  "Delete_loop (testingDeleteApp [oldCodespace, recentCodespace]
             (failingFor [''old'']))
          (testingDeleteOptions\<lparr>deleteAll := True, keepDays := 0\<rparr>) []
          (lastUpdatedCutoffTime
             (testingDeleteApp [oldCodespace, recentCodespace] (failingFor [''old'']))
             (testingDeleteOptions\<lparr>deleteAll := True, keepDays := 0\<rparr>))
          [oldCodespace, recentCodespace] = (Inr [oldCodespace, recentCodespace], [])
   \<and> Delete (testingDeleteApp [oldCodespace, recentCodespace]
             (failingFor [''old'']))
          (testingDeleteOptions\<lparr>deleteAll := True, keepDays := 0\<rparr>)
   = (Inl (New ''some codespaces failed to delete''),
      [StartProgressIndicatorWithLabel ''Fetching codespaces'',
       Call_ListCodespaces [] [], StopProgressIndicator,
       StartProgressIndicatorWithLabel ''Deleting codespaces'',
       Call_DeleteCodespace ''old'' [] [],
       Fprintf ErrLogger ''error deleting codespace %q: %v\<newline>'' [Str ''old'', ErrArg (Opaque ''HTTP 500'')],
       Call_DeleteCodespace ''recent'' [] [],
       StopProgressIndicator])"
proof -
  let ?a = "testingDeleteApp [oldCodespace, recentCodespace]
             (failingFor [''old''])"
  let ?o = "testingDeleteOptions\<lparr>deleteAll := True, keepDays := 0\<rparr>"
  have l: "Delete_loop ?a ?o [] (lastUpdatedCutoffTime ?a ?o) [oldCodespace, recentCodespace] =
           (Inr [oldCodespace, recentCodespace], [])"
    by (simp add: testingDeleteOptions_def confirmDeletion_def hasUnsavedChanges_def
        oldCodespace_def recentCodespace_def disabledCodespace_def andThen_def wrapErr_def)
  from bulk_delete_runs_every_task[OF fetch_all l _ refl]
  obtain t2 where "snd (Delete ?a ?o) =
      [StartProgressIndicatorWithLabel ''Fetching codespaces'',
       Call_ListCodespaces [] [], StopProgressIndicator] @ [] @ t2"
    and "fst (Delete ?a ?o) = Inl (New ''some codespaces failed to delete'')"
    by (auto simp: testingDeleteApp_def failingFor_def testingApp_def apiClientMock_def testingDeleteOptions_def
        oldCodespace_def recentCodespace_def)
  moreover have "snd (Delete ?a ?o) =
      [StartProgressIndicatorWithLabel ''Fetching codespaces'',
       Call_ListCodespaces [] [], StopProgressIndicator] @ [] @
      snd (Delete_execute ?a ?o [oldCodespace, recentCodespace])"
    using Delete_unfold[OF fetch_all l] by simp
  moreover have "snd (Delete_execute ?a ?o [oldCodespace, recentCodespace]) =
      [StartProgressIndicatorWithLabel ''Deleting codespaces'',
       Call_DeleteCodespace ''old'' [] [],
       Fprintf ErrLogger ''error deleting codespace %q: %v\<newline>'' [Str ''old'', ErrArg (Opaque ''HTTP 500'')],
       Call_DeleteCodespace ''recent'' [] [],
       StopProgressIndicator]"
    by (simp add: Delete_execute_snd deleteTask_def
        testingDeleteApp_def failingFor_def testingApp_def apiClientMock_def testingDeleteOptions_def
        oldCodespace_def recentCodespace_def)
  ultimately show ?thesis using l by (cases "Delete ?a ?o") simp
qed

lemma andThen_not_flag:
  assumes "fst m \<noteq> Inl (FlagErrorf msg)" and "\<And>x. fst (f x) \<noteq> Inl (FlagErrorf msg)"
  shows "fst (andThen m f) \<noteq> Inl (FlagErrorf msg)"
proof (cases m)
  case (Pair r t)
  show ?thesis
  proof (cases r)
    case (Inl err)
    with Pair assms(1) show ?thesis by (simp add: andThen_def)
  next
    case (Inr x)
    with Pair assms(2)[of x] show ?thesis by (cases "f x") (simp add: andThen_def)
  qed
qed

lemma wrapErr_not_flag: "fst (wrapErr format m) \<noteq> Inl (FlagErrorf msg)"
  by (cases m; cases "fst m") (auto simp: wrapErr_def)

lemma Delete_loop_not_flag:
  "fst (Delete_loop a opts nf k cs) \<noteq> Inl (FlagErrorf msg)"
proof (induction cs)
  case Nil
  then show ?case by simp
next
  case (Cons c cs)
  have A: "fst (andThen (Delete_loop a opts nf k cs) (\<lambda>rest. (Inr (c # rest), []))) \<noteq> Inl (FlagErrorf msg)"
    by (rule andThen_not_flag[OF Cons.IH]) simp
  have B: "fst (andThen (wrapErr ''unable to confirm: %w''
                          (confirmDeletion (prompter_Confirm opts) c (isInteractive opts)))
                 (\<lambda>confirmed.
                    if \<not> confirmed
                    then Delete_loop a opts nf k cs
                    else andThen (Delete_loop a opts nf k cs)
                           (\<lambda>rest. (Inr (c # rest), [])))) \<noteq> Inl (FlagErrorf msg)"
    by (rule andThen_not_flag[OF wrapErr_not_flag]) (simp add: A Cons.IH)
  consider (u) "unparseable a opts nf c"
    | (k) "spec_name_match nf c" "spec_repo_match a opts c"
          "keepDays opts = 0 \<or> (\<exists>t. time_Parse_RFC3339 a (LastUsedAt c) = Inr t \<and> t \<le> k)"
    | (s) "\<not> (spec_name_match nf c \<and> spec_repo_match a opts c \<and>
              (keepDays opts = 0 \<or> (\<exists>t. time_Parse_RFC3339 a (LastUsedAt c) = Inr t \<and> t \<le> k)))"
          "\<not> unparseable a opts nf c"
    by blast
  then show ?case
  proof cases
    case u
    from Delete_loop_unparseable[OF u, of k cs] show ?thesis
      by (auto simp del: Delete_loop.simps)
  next
    case k
    show ?thesis
      by (simp only: Delete_loop_keep_k[OF k]) (simp add: A B)
  next
    case s
    show ?thesis
      by (simp only: Delete_loop_skip_k[OF s] Cons.IH not_False_eq_True)
  qed
qed

lemma Delete_execute_not_flag: "fst (Delete_execute a opts xs) \<noteq> Inl (FlagErrorf msg)"
  by (simp add: Delete_execute_def Let_def split: option.splits)

lemma if_not_flag:
  "fst x \<noteq> Inl (FlagErrorf msg) \<Longrightarrow> fst y \<noteq> Inl (FlagErrorf msg) \<Longrightarrow>
   fst (if b then x else y) \<noteq> Inl (FlagErrorf msg)"
  by simp

lemma Delete_fetch_not_flag: "fst (Delete_fetch a opts) \<noteq> Inl (FlagErrorf msg)"
  unfolding Delete_fetch_def
  by (intro if_not_flag andThen_not_flag wrapErr_not_flag; simp split: prod.splits)

lemma Delete_not_flag: "fst (Delete a opts) \<noteq> Inl (FlagErrorf msg)"
proof -
  obtain r0 t0 where f: "Delete_fetch a opts = (r0, t0)" by force
  show ?thesis
  proof (cases r0)
    case (Inl err)
    with f Delete_fetch_not_flag[of a opts msg] show ?thesis
      by (auto simp: Delete_def andThen_def)
  next
    case (Inr p)
    obtain cs nf where p: "p = (cs, nf)" by force
    obtain r t1 where l: "Delete_loop a opts nf (lastUpdatedCutoffTime a opts) cs = (r, t1)" by force
    from Delete_unfold[OF f[unfolded Inr p] l] Delete_loop_not_flag[of a opts nf "lastUpdatedCutoffTime a opts" cs msg] l
      Delete_execute_not_flag[of a opts _ msg]
    show ?thesis by (auto split: sum.splits if_splits)
  qed
qed

lemma Delete_fetch_named:
  "codespaceName opts \<noteq> [] \<Longrightarrow>
   \<exists>t. snd (Delete_fetch a opts) =
     StartProgressIndicatorWithLabel ''Fetching codespace''
       # (if orgName opts = [] \<or> userName opts = []
          then Call_GetCodespace (codespaceName opts) False
          else Call_GetOrgMemberCodespace (orgName opts) (userName opts) (codespaceName opts))
       # StopProgressIndicator # t"
  by (auto simp: Delete_fetch_def andThen_def wrapErr_def call_GetCodespace_def
      call_GetOrgMemberCodespace_def split: prod.splits sum.splits)

lemma Delete_starts_with_fetch: "\<exists>t. snd (Delete a opts) = snd (Delete_fetch a opts) @ t"
  by (auto simp: Delete_def andThen_def split: prod.splits sum.splits)

text \<open>
  C7 (as amended). The command rejects as usage errors, before any event of the run,
  exactly two combinations: \<^verbatim>\<open>--all\<close> together with a repository filter, and an
  organization with a codespace name but no user. Every other combination runs
  \<^verbatim>\<open>Delete\<close>, which never returns a usage error; with an explicit name, whatever
  the repository and age filters, it begins by fetching the named record from the
  control plane.
\<close>

theorem delete_usage_errors:
  "(deleteAll opts \<and> repoFilter opts \<noteq> [] \<or>
    orgName opts \<noteq> [] \<and> codespaceName opts \<noteq> [] \<and> userName opts = [] \<longrightarrow>
      (\<exists>msg. newDeleteCmd_RunE a opts = (Inl (FlagErrorf msg), [])))
   \<and> (\<not> (deleteAll opts \<and> repoFilter opts \<noteq> [] \<or>
          orgName opts \<noteq> [] \<and> codespaceName opts \<noteq> [] \<and> userName opts = []) \<longrightarrow>
      newDeleteCmd_RunE a opts = Delete a opts \<and>
      (\<forall>msg. fst (newDeleteCmd_RunE a opts) \<noteq> Inl (FlagErrorf msg)) \<and>
      (codespaceName opts \<noteq> [] \<longrightarrow>
         (\<exists>t. snd (newDeleteCmd_RunE a opts) =
            StartProgressIndicatorWithLabel ''Fetching codespace''
              # (if orgName opts = [] \<or> userName opts = []
                 then Call_GetCodespace (codespaceName opts) False
                 else Call_GetOrgMemberCodespace (orgName opts) (userName opts) (codespaceName opts))
              # StopProgressIndicator # t)))"
proof -
  have "\<exists>t. snd (Delete a opts) =
            StartProgressIndicatorWithLabel ''Fetching codespace''
              # (if orgName opts = [] \<or> userName opts = []
                 then Call_GetCodespace (codespaceName opts) False
                 else Call_GetOrgMemberCodespace (orgName opts) (userName opts) (codespaceName opts))
              # StopProgressIndicator # t"
    if "codespaceName opts \<noteq> []"
  proof -
    from Delete_fetch_named[OF that, of a] obtain t where
      "snd (Delete_fetch a opts) = StartProgressIndicatorWithLabel ''Fetching codespace''
              # (if orgName opts = [] \<or> userName opts = []
                 then Call_GetCodespace (codespaceName opts) False
                 else Call_GetOrgMemberCodespace (orgName opts) (userName opts) (codespaceName opts))
              # StopProgressIndicator # t" by blast
    moreover from Delete_starts_with_fetch[of a opts] obtain t' where
      "snd (Delete a opts) = snd (Delete_fetch a opts) @ t'" by blast
    ultimately show ?thesis by simp
  qed
  then show ?thesis
    using Delete_not_flag[of a opts]
    by (auto simp: newDeleteCmd_RunE_def)
qed

theorem delete_usage_errors_witness:
  "newDeleteCmd_RunE (testingApp apiClientMock)
      (testingDeleteOptions\<lparr>deleteAll := True, repoFilter := ''monalisa/Spoon-Knife''\<rparr>)
     = (Inl (FlagErrorf ''both `--all` and `--repo` is not supported''), [])
   \<and> newDeleteCmd_RunE (testingApp apiClientMock)
      (testingDeleteOptions\<lparr>codespaceName := ''disabledCodespace''\<rparr>)
     = Delete (testingApp apiClientMock) (testingDeleteOptions\<lparr>codespaceName := ''disabledCodespace''\<rparr>)"
  using delete_usage_errors[of "testingDeleteOptions\<lparr>deleteAll := True, repoFilter := ''monalisa/Spoon-Knife''\<rparr>"
          "testingApp apiClientMock"]
        delete_usage_errors[of "testingDeleteOptions\<lparr>codespaceName := ''disabledCodespace''\<rparr>"
          "testingApp apiClientMock"]
  by (simp add: testingDeleteOptions_def newDeleteCmd_RunE_def)

text \<open>
  C7 (as stated) fails: an explicit name together with a repository filter and an age
  filter is no usage error; the named record is fetched and then filtered out.
\<close>

theorem explicit_name_with_filters_is_accepted:
  "newDeleteCmd_RunE (testingApp apiClientMock)
      (testingDeleteOptions\<lparr>codespaceName := ''disabledCodespace'',
                             repoFilter := ''monalisa/Spoon-Knife'', keepDays := 30\<rparr>)
     = (Inl (New ''no codespaces to delete''),
        [StartProgressIndicatorWithLabel ''Fetching codespace'',
         Call_GetCodespace ''disabledCodespace'' False,
         StopProgressIndicator])"
  by (simp add: newDeleteCmd_RunE_def Delete_def Delete_fetch_def andThen_def wrapErr_def
      call_GetCodespace_def testingApp_def apiClientMock_def testingDeleteOptions_def
      disabledCodespace_def)

section \<open>Properties of Create\<close>

lemma stringInSlice_iff: "stringInSlice x xs \<longleftrightarrow> x \<in> set xs"
  by (induction xs) auto

lemma andThen_events:
  assumes "\<forall>e \<in> set (snd m). P e" and "\<And>x. \<forall>e \<in> set (snd (f x)). P e"
  shows "\<forall>e \<in> set (snd (andThen m f)). P e"
proof (cases m)
  case (Pair r t)
  show ?thesis
  proof (cases r)
    case (Inl err)
    with Pair assms(1) show ?thesis by (simp add: andThen_def)
  next
    case (Inr x)
    with Pair assms(1) assms(2)[of x] show ?thesis
      by (cases "f x") (auto simp: andThen_def)
  qed
qed

lemma wrapErr_events:
  "\<forall>e \<in> set (snd m). P e \<Longrightarrow> \<forall>e \<in> set (snd (wrapErr format m)). P e"
  by (cases m; cases "fst m") (auto simp: wrapErr_def)

lemma between_events:
  "\<forall>e \<in> set before. P e \<Longrightarrow> \<forall>e \<in> set (snd m). P e \<Longrightarrow> \<forall>e \<in> set after. P e \<Longrightarrow>
   \<forall>e \<in> set (snd (between before m after)). P e"
  by (cases m) (auto simp: between_def)

lemma if_events:
  "\<forall>e \<in> set (snd x). P e \<Longrightarrow> \<forall>e \<in> set (snd y). P e \<Longrightarrow>
   \<forall>e \<in> set (snd (if b then x else y)). P e"
  by simp

lemma ask_Input_events: "snd (ask_Input a n m d) = [Ask (Input n m d)]"
  by (simp add: ask_Input_def)

lemma Create_devcontainer_no_create:
  "\<forall>e \<in> set (snd (Create_devcontainer a opts repoID br)). \<not> is_CreateCodespace e"
  unfolding Create_devcontainer_def Let_def
  by (intro if_events andThen_events wrapErr_events between_events;
      simp add: ask_Select_events)

lemma getMachineName_no_create:
  "\<forall>e \<in> set (snd (getMachineName a repoID m br loc path)). \<not> is_CreateCodespace e"
  unfolding getMachineName_def Let_def
  by (intro if_events andThen_events wrapErr_events between_events;
      simp add: ask_Select_events call_GetCodespacesMachines_def split: option.splits)

lemma Create_machine_no_create:
  "\<forall>e \<in> set (snd (Create_machine a opts resolved)). \<not> is_CreateCodespace e"
  unfolding Create_machine_def
  by (cases resolved) (simp, intro andThen_events wrapErr_events getMachineName_no_create, simp)

lemma Create_resolve_no_create:
  "\<forall>e \<in> set (snd (Create_resolve a opts)). \<not> is_CreateCodespace e"
  unfolding Create_resolve_def Let_def
  by (intro if_events andThen_events wrapErr_events between_events Create_devcontainer_no_create;
      auto simp: ask_Input_events split: option.splits)

lemma Create_devcontainer_fetched:
  assumes "devContainerPath opts = []" and "ListDevContainers (apiClient a) repoID br 100 = Inr ds"
  shows "Create_devcontainer a opts repoID br =
     between [StartProgressIndicatorWithLabel ''Fetching devcontainer.json files'',
              Call_ListDevContainers repoID br 100, StopProgressIndicator]
       (andThen
          (if length ds > 0 then
             (if length ds = 1 \<and> Path (ds ! 0) \<in> set DEFAULT_DEVCONTAINER_DEFINITIONS
              then (Inr (Path (ds ! 0)), [])
              else
                andThen (wrapErr ''failed to prompt: %w''
                           (ask_Select a ''devContainerPath'' ''Devcontainer definition file:''
                              ((if Path (ds ! 0) \<in> set DEFAULT_DEVCONTAINER_DEFINITIONS then []
                                else [DEVCONTAINER_PROMPT_DEFAULT]) @ map Path ds)))
                  (\<lambda>answer. (Inr (((if Path (ds ! 0) \<in> set DEFAULT_DEVCONTAINER_DEFINITIONS then []
                                else [DEVCONTAINER_PROMPT_DEFAULT]) @ map Path ds) ! answer), [])))
           else (Inr [], []))
          (\<lambda>path. if path = DEVCONTAINER_PROMPT_DEFAULT then (Inr [], []) else (Inr path, [])))
       []"
  using assms
  by (simp add: Create_devcontainer_def andThen_def wrapErr_def between_def Let_def
      stringInSlice_iff split: prod.splits sum.splits)

text \<open>
  C9 (as amended). When the caller gave no devcontainer path and the control plane
  lists the candidates: with no candidate the path stays empty; with exactly one
  candidate that is a well-known default path, that path is selected and nothing is
  asked; in every other case \<^verbatim>\<open>ask\<close> is called with every discovered path as an
  option, preceded by the sentinel "Default Codespaces configuration" only when the first
  discovered path is not a well-known default path, and the answer is the path,
  where the sentinel maps to the empty path.
\<close>

theorem devcontainer_stage:
  assumes "devContainerPath opts = []" and "ListDevContainers (apiClient a) repoID br 100 = Inr ds"
    and "fetched = [StartProgressIndicatorWithLabel ''Fetching devcontainer.json files'',
                    Call_ListDevContainers repoID br 100, StopProgressIndicator]"
    and "options = (if Path (ds ! 0) \<in> set DEFAULT_DEVCONTAINER_DEFINITIONS then []
                    else [DEVCONTAINER_PROMPT_DEFAULT]) @ map Path ds"
  shows "(ds = [] \<longrightarrow> Create_devcontainer a opts repoID br = (Inr [], fetched))
       \<and> (length ds = 1 \<and> Path (ds ! 0) \<in> set DEFAULT_DEVCONTAINER_DEFINITIONS \<longrightarrow>
            Create_devcontainer a opts repoID br = (Inr (Path (ds ! 0)), fetched))
       \<and> (ds \<noteq> [] \<and> \<not> (length ds = 1 \<and> Path (ds ! 0) \<in> set DEFAULT_DEVCONTAINER_DEFINITIONS) \<longrightarrow>
            snd (Create_devcontainer a opts repoID br) =
              fetched @ [Ask (Select ''devContainerPath'' ''Devcontainer definition file:'' options)]
            \<and> set (map Path ds) \<subseteq> set options
            \<and> (DEVCONTAINER_PROMPT_DEFAULT \<in> set options \<longleftrightarrow>
                 Path (ds ! 0) \<notin> set DEFAULT_DEVCONTAINER_DEFINITIONS \<or>
                 DEVCONTAINER_PROMPT_DEFAULT \<in> set (map Path ds))
            \<and> (\<forall>i. hasTTY a \<and>
                   survey_Select a ''devContainerPath'' ''Devcontainer definition file:'' options = Inr i \<and>
                   i < length options \<longrightarrow>
                   fst (Create_devcontainer a opts repoID br) =
                     Inr (if options ! i = DEVCONTAINER_PROMPT_DEFAULT then [] else options ! i)))"
proof -
  note F = Create_devcontainer_fetched[OF assms(1,2)]
  have 1: "ds = [] \<longrightarrow> Create_devcontainer a opts repoID br = (Inr [], fetched)"
    by (simp add: F assms(3) andThen_def between_def DEVCONTAINER_PROMPT_DEFAULT_def)
  have 2: "length ds = 1 \<and> Path (ds ! 0) \<in> set DEFAULT_DEVCONTAINER_DEFINITIONS \<longrightarrow>
            Create_devcontainer a opts repoID br = (Inr (Path (ds ! 0)), fetched)"
    by (auto simp: F assms(3) andThen_def between_def DEVCONTAINER_PROMPT_DEFAULT_def
        DEFAULT_DEVCONTAINER_DEFINITIONS_def)
  have 3: "snd (Create_devcontainer a opts repoID br) =
              fetched @ [Ask (Select ''devContainerPath'' ''Devcontainer definition file:'' options)]"
    if "ds \<noteq> []" "\<not> (length ds = 1 \<and> Path (ds ! 0) \<in> set DEFAULT_DEVCONTAINER_DEFINITIONS)"
    using that unfolding F assms(3) assms(4)[symmetric]
    by (cases "ask_Select a ''devContainerPath'' ''Devcontainer definition file:'' options";
        cases "fst (ask_Select a ''devContainerPath'' ''Devcontainer definition file:'' options)")
       (use ask_Select_events[of a "''devContainerPath''" "''Devcontainer definition file:''" options]
        in \<open>auto simp: andThen_def wrapErr_def between_def\<close>)
  have 4: "fst (Create_devcontainer a opts repoID br) =
                     Inr (if options ! i = DEVCONTAINER_PROMPT_DEFAULT then [] else options ! i)"
    if "ds \<noteq> []" "\<not> (length ds = 1 \<and> Path (ds ! 0) \<in> set DEFAULT_DEVCONTAINER_DEFINITIONS)"
       "hasTTY a"
       "survey_Select a ''devContainerPath'' ''Devcontainer definition file:'' options = Inr i"
       "i < length options" for i
  proof -
    have "ask_Select a ''devContainerPath'' ''Devcontainer definition file:'' options =
          (Inr i, [Ask (Select ''devContainerPath'' ''Devcontainer definition file:'' options)])"
      using that(3,4,5) by (simp add: ask_Select_def)
    with that(1,2) show ?thesis
      unfolding F assms(3) assms(4)[symmetric]
      by (auto simp: andThen_def wrapErr_def between_def)
  qed
  have 5: "set (map Path ds) \<subseteq> set options" by (auto simp: assms(4))
  have 6: "DEVCONTAINER_PROMPT_DEFAULT \<in> set options \<longleftrightarrow>
                 Path (ds ! 0) \<notin> set DEFAULT_DEVCONTAINER_DEFINITIONS \<or>
                 DEVCONTAINER_PROMPT_DEFAULT \<in> set (map Path ds)"
    by (auto simp: assms(4))
  from 1 2 3 4 5 6 show ?thesis by blast
qed

theorem devcontainer_stage_witness:
  "Create_devcontainer (devcontainersApp [''.devcontainer/devcontainer.json''])
     testingCreateOptions 1 ''main''
   = (Inr ''.devcontainer/devcontainer.json'',
      [StartProgressIndicatorWithLabel ''Fetching devcontainer.json files'',
       Call_ListDevContainers 1 ''main'' 100, StopProgressIndicator])
   \<and> snd (Create_devcontainer (devcontainersApp [''.devcontainer/rust/devcontainer.json''])
     testingCreateOptions 1 ''main'')
   = [StartProgressIndicatorWithLabel ''Fetching devcontainer.json files'',
      Call_ListDevContainers 1 ''main'' 100, StopProgressIndicator,
      Ask (Select ''devContainerPath'' ''Devcontainer definition file:''
             [''Default Codespaces configuration'', ''.devcontainer/rust/devcontainer.json''])]"
  using devcontainer_stage[of testingCreateOptions
          "devcontainersApp [''.devcontainer/devcontainer.json'']"
          1 "''main''" "[\<lparr>Path = ''.devcontainer/devcontainer.json''\<rparr>]", OF _ _ refl refl]
        devcontainer_stage[of testingCreateOptions
          "devcontainersApp [''.devcontainer/rust/devcontainer.json'']"
          1 "''main''" "[\<lparr>Path = ''.devcontainer/rust/devcontainer.json''\<rparr>]", OF _ _ refl refl]
  by (simp add: testingCreateOptions_def devcontainersApp_def testingApp_def apiClientMock_def
      DEFAULT_DEVCONTAINER_DEFINITIONS_def DEVCONTAINER_PROMPT_DEFAULT_def)

text \<open>
  C9 (as stated) fails: with two candidates of which the first is a well-known default
  path, the prompt offers the two paths and no sentinel option.
\<close>

theorem devcontainer_prompt_without_sentinel:
  "snd (Create_devcontainer
          (devcontainersApp [''.devcontainer.json'', ''.devcontainer/rust/devcontainer.json''])
          testingCreateOptions 1 ''main'')
   = [StartProgressIndicatorWithLabel ''Fetching devcontainer.json files'',
      Call_ListDevContainers 1 ''main'' 100, StopProgressIndicator,
      Ask (Select ''devContainerPath'' ''Devcontainer definition file:''
             [''.devcontainer.json'', ''.devcontainer/rust/devcontainer.json''])]
   \<and> DEVCONTAINER_PROMPT_DEFAULT \<notin> set [''.devcontainer.json'', ''.devcontainer/rust/devcontainer.json'']"
  by (simp add: Create_devcontainer_def andThen_def wrapErr_def between_def ask_Select_def
      testingCreateOptions_def devcontainersApp_def testingApp_def apiClientMock_def
      DEFAULT_DEVCONTAINER_DEFINITIONS_def DEVCONTAINER_PROMPT_DEFAULT_def)

lemma getMachineName_fetched:
  assumes "GetCodespacesMachines (apiClient a) repoID br loc path = Inr ms"
  shows "getMachineName a repoID m br loc path =
     between [Call_GetCodespacesMachines repoID br loc path]
       (if m \<noteq> [] then
            (if m \<in> set (map Machine.Name ms) then (Inr m, [])
             else (Inl (Errorf ''there is no such machine for the repository: %s\<newline>Available machines: %v''
                          [m, fmt_v_strings (map Machine.Name ms)]), []))
          else if length ms = 0 then (Inr [], [])
          else if length ms = 1 then (Inr (Machine.Name (ms ! 0)), [])
          else
            andThen (wrapErr ''error getting machine: %w''
                           (ask_Select a ''machine'' ''Choose Machine Type:''
                              (map (\<lambda>m. buildDisplayName (Machine.DisplayName m) (PrebuildAvailability m)) ms)))
                  (\<lambda>answer.
                     case map_of (rev (zip (map (\<lambda>m. buildDisplayName (Machine.DisplayName m) (PrebuildAvailability m)) ms) ms))
                            (map (\<lambda>m. buildDisplayName (Machine.DisplayName m) (PrebuildAvailability m)) ms ! answer) of
                       None \<Rightarrow> (Inl (Opaque ''nil pointer dereference''), [])
                     | Some selectedMachine \<Rightarrow> (Inr (Machine.Name selectedMachine), [])))
       []"
  using assms
  by (simp add: getMachineName_def andThen_def wrapErr_def between_def Let_def
      call_GetCodespacesMachines_def split: prod.splits)

lemma Create_unfold:
  assumes "Create_resolve a opts = (Inr resolved, t0)"
    and "Create_machine a opts resolved = (r, t1)"
  shows "Create a opts =
           (case r of
              Inl err \<Rightarrow> (Inl err, t0 @ t1)
            | Inr params \<Rightarrow>
                (fst (Create_submit a opts params), t0 @ t1 @ snd (Create_submit a opts params)))"
  using assms
  by (auto simp: Create_def andThen_def split: sum.splits prod.splits)

text \<open>
  C8. When the stages before the machine stage have succeeded and the control plane
  lists the machines for the resolved repository, branch, location and devcontainer
  path: a machine name the caller gave that is not in the list makes \<^verbatim>\<open>Create\<close>
  fail with the error that names the machine and enumerates the available machine
  names; a name in the list is taken as it is; with no name given and no machine
  available \<^verbatim>\<open>Create\<close> fails with "there are no available machine types for this
  repository"; with no name given and exactly one machine, that machine is selected
  with no call of \<^verbatim>\<open>ask\<close>, and it is the machine of the request. The runs that
  fail consist of the events up to the machine lookup, none of which is a create request.
\<close>

theorem machine_stage:
  assumes "Create_resolve a opts = (Inr (repository, br, loc, path), t0)"
    and "GetCodespacesMachines (apiClient a) (ID repository) br loc path = Inr ms"
    and "fetched = [Call_GetCodespacesMachines (ID repository) br loc path]"
  shows "(machine opts \<noteq> [] \<and> machine opts \<notin> set (map Machine.Name ms) \<longrightarrow>
            Create a opts =
              (Inl (Wrapf ''error getting machine type: %w'' []
                      (Errorf ''there is no such machine for the repository: %s\<newline>Available machines: %v''
                         [machine opts, fmt_v_strings (map Machine.Name ms)])),
               t0 @ fetched))
       \<and> (machine opts \<noteq> [] \<and> machine opts \<in> set (map Machine.Name ms) \<longrightarrow>
            getMachineName a (ID repository) (machine opts) br loc path = (Inr (machine opts), fetched))
       \<and> (machine opts = [] \<and> ms = [] \<longrightarrow>
            Create a opts =
              (Inl (New ''there are no available machine types for this repository''), t0 @ fetched))
       \<and> (machine opts = [] \<and> length ms = 1 \<longrightarrow>
            getMachineName a (ID repository) (machine opts) br loc path =
              (Inr (Machine.Name (ms ! 0)), fetched) \<and>
            (Machine.Name (ms ! 0) \<noteq> [] \<longrightarrow>
               (\<exists>params. Create_machine a opts (repository, br, loc, path) = (Inr params, fetched) \<and>
                         Machine params = Machine.Name (ms ! 0))))
       \<and> (\<forall>e \<in> set (t0 @ fetched). \<not> is_CreateCodespace e)"
proof -
  note G = getMachineName_fetched[OF assms(2)]
  have t0: "\<forall>e \<in> set t0. \<not> is_CreateCodespace e"
    using Create_resolve_no_create[of a opts] assms(1) by simp
  have 1: "Create a opts =
              (Inl (Wrapf ''error getting machine type: %w'' []
                      (Errorf ''there is no such machine for the repository: %s\<newline>Available machines: %v''
                         [machine opts, fmt_v_strings (map Machine.Name ms)])),
               t0 @ fetched)"
    if "machine opts \<noteq> []" "machine opts \<notin> set (map Machine.Name ms)"
  proof -
    have "Create_machine a opts (repository, br, loc, path) =
       (Inl (Wrapf ''error getting machine type: %w'' []
                      (Errorf ''there is no such machine for the repository: %s\<newline>Available machines: %v''
                         [machine opts, fmt_v_strings (map Machine.Name ms)])), fetched)"
      using that by (simp add: Create_machine_def G assms(3) andThen_def wrapErr_def between_def)
    from Create_unfold[OF assms(1) this] show ?thesis by simp
  qed
  have 2: "getMachineName a (ID repository) (machine opts) br loc path = (Inr (machine opts), fetched)"
    if "machine opts \<noteq> []" "machine opts \<in> set (map Machine.Name ms)"
    using that by (simp add: G assms(3) between_def)
  have 3: "Create a opts =
              (Inl (New ''there are no available machine types for this repository''), t0 @ fetched)"
    if "machine opts = []" "ms = []"
  proof -
    have "Create_machine a opts (repository, br, loc, path) =
       (Inl (New ''there are no available machine types for this repository''), fetched)"
      using that by (simp add: Create_machine_def G assms(3) andThen_def wrapErr_def between_def)
    from Create_unfold[OF assms(1) this] show ?thesis by simp
  qed
  have 4: "getMachineName a (ID repository) (machine opts) br loc path =
              (Inr (Machine.Name (ms ! 0)), fetched)"
    if "machine opts = []" "length ms = 1"
    using that by (simp add: G assms(3) between_def)
  have 5: "\<exists>params. Create_machine a opts (repository, br, loc, path) = (Inr params, fetched) \<and>
                         Machine params = Machine.Name (ms ! 0)"
    if "machine opts = []" "length ms = 1" "Machine.Name (ms ! 0) \<noteq> []"
    using that by (simp add: Create_machine_def G assms(3) andThen_def wrapErr_def between_def)
  have 6: "\<forall>e \<in> set (t0 @ fetched). \<not> is_CreateCodespace e"
    using t0 by (simp add: assms(3))
  from 1 2 3 4 5 6 show ?thesis by blast
qed

lemma poller_loop_no_create:
  "\<forall>e \<in> set (snd (snd (poller_loop states v))). \<not> is_CreateCodespace e"
  by (induction states v rule: poller_loop.induct) (auto split: prod.splits)

lemma poller_no_create: "\<forall>e \<in> set (snd (poller v states)). \<not> is_CreateCodespace e"
  using poller_loop_no_create[of states v]
  by (auto simp: poller_def split: prod.splits if_splits)

lemma PollPostCreateStates_no_create:
  "\<forall>e \<in> set (fst (snd (snd (PollPostCreateStates v passes)))). \<not> is_CreateCodespace e"
proof (induction passes arbitrary: v)
  case Nil
  then show ?case by simp
next
  case (Cons states rest)
  obtain v' es where p: "poller v states = (v', es)" by force
  from poller_no_create[of v states] p have es: "\<forall>e \<in> set es. \<not> is_CreateCodespace e" by simp
  show ?case
    using Cons.IH[of v'] es p by (auto split: prod.splits)
qed

lemma showStatus_no_create: "\<forall>e \<in> set (snd (showStatus passes)). \<not> is_CreateCodespace e"
  using PollPostCreateStates_no_create[of showStatus_init passes]
  by (auto simp: showStatus_def split: prod.splits)

text \<open>What follows a successful request: the status and the output.\<close>

lemma after_create_no_create:
  "\<forall>e \<in> set (snd (andThen
            (if showStatus_flag opts then
               (case showStatus (postCreateStates a) of
                  (Some err, t) \<Rightarrow> (Inl (Wrapf ''show status: %w'' [] err), t)
                | (None, t) \<Rightarrow> (Inr (), t))
             else (Inr (), []))
            (\<lambda>u. (Inr (),
                   Fprintln Out [Codespace.Name codespace]
                     # (if io_IsStderrTTY a \<and> IdleTimeoutNotice codespace \<noteq> []
                        then [Fprintln ErrOut [''Notice:'', IdleTimeoutNotice codespace]]
                        else []))))). \<not> is_CreateCodespace e"
proof (intro andThen_events if_events)
  show "\<forall>e\<in>set (snd (case showStatus (postCreateStates a) of
                  (Some err, t) \<Rightarrow> (Inl (Wrapf ''show status: %w'' [] err), t)
                | (None, t) \<Rightarrow> (Inr (), t))). \<not> is_CreateCodespace e"
    using showStatus_no_create[of "postCreateStates a"]
    by (auto split: prod.splits option.splits)
qed auto

lemma filter_none: "\<forall>e \<in> set t. \<not> P e \<Longrightarrow> filter P t = []"
  by (induction t) auto

lemma Create_submit_permissions:
  assumes "CreateCodespace (apiClient a) params = Inl err"
    and "errors_As_AcceptPermissionsRequiredError err = Some url" and "url \<noteq> []"
    and "choices = [''Continue in browser to review and authorize additional permissions (Recommended)'',
                    ''Continue without authorizing additional permissions'']"
  shows "(\<not> io_CanPrompt a \<longrightarrow>
            fst (Create_submit a opts params) = Inl SilentError \<and>
            filter is_CreateCodespace (snd (Create_submit a opts params)) = [Call_CreateCodespace params])
       \<and> (io_CanPrompt a \<longrightarrow>
            filter is_CreateCodespace (snd (Create_submit a opts params)) = [Call_CreateCodespace params] \<or>
            filter is_CreateCodespace (snd (Create_submit a opts params)) =
              [Call_CreateCodespace params, Call_CreateCodespace (params\<lparr>PermissionsOptOut := True\<rparr>)])
       \<and> (io_CanPrompt a \<and> hasTTY a \<and>
          survey_Select a ''accept'' ''What would you like to do?'' choices = Inr 1 \<longrightarrow>
            filter is_CreateCodespace (snd (Create_submit a opts params)) =
              [Call_CreateCodespace params, Call_CreateCodespace (params\<lparr>PermissionsOptOut := True\<rparr>)])
       \<and> (\<forall>err2. filter is_CreateCodespace (snd (Create_submit a opts params)) =
                   [Call_CreateCodespace params, Call_CreateCodespace (params\<lparr>PermissionsOptOut := True\<rparr>)] \<and>
                 CreateCodespace (apiClient a) (params\<lparr>PermissionsOptOut := True\<rparr>) = Inl err2 \<longrightarrow>
                   fst (Create_submit a opts params) =
                     Inl (Wrapf ''error creating codespace: %w'' [] err2))"
proof -
  let ?tc = "[StartProgressIndicatorWithLabel ''Creating codespace'',
              Call_CreateCodespace params, StopProgressIndicator]"
  let ?p1 = "Fprintf ErrOut ''You must authorize or deny additional permissions requested by this codespace before continuing.\<newline>'' []"
  let ?q = "Ask (Select ''accept'' ''What would you like to do?'' choices)"
  have c: "call_CreateCodespace a params = (Inl err, ?tc)"
    using assms(1) by (simp add: call_CreateCodespace_def between_def)
  define h where "h = handleAdditionalPermissions a params url"
  define rest where "rest = (\<lambda>codespace :: Codespace.
          andThen
            (if showStatus_flag opts then
               (case showStatus (postCreateStates a) of
                  (Some err, t) \<Rightarrow> (Inl (Wrapf ''show status: %w'' [] err), t)
                | (None, t) \<Rightarrow> (Inr (), t))
             else (Inr (), []))
            (\<lambda>u. (Inr (),
                   Fprintln Out [Codespace.Name codespace]
                     # (if io_IsStderrTTY a \<and> IdleTimeoutNotice codespace \<noteq> []
                        then [Fprintln ErrOut [''Notice:'', IdleTimeoutNotice codespace]]
                        else []))))"
  have S: "Create_submit a opts params = andThen (between ?tc h []) rest"
    unfolding Create_submit_def c h_def rest_def using assms(2,3) by simp
  have after: "filter is_CreateCodespace (snd (rest codespace)) = []" for codespace
    unfolding rest_def using after_create_no_create[of opts a codespace] by (rule filter_none)
  have fail: "fst (Create_submit a opts params) = Inl e \<and>
              filter is_CreateCodespace (snd (Create_submit a opts params)) =
                Call_CreateCodespace params # filter is_CreateCodespace t"
    if "h = (Inl e, t)" for e t
    unfolding S that by (simp add: andThen_def between_def)
  have pass: "filter is_CreateCodespace (snd (Create_submit a opts params)) =
                Call_CreateCodespace params # filter is_CreateCodespace t"
    if "h = (Inr codespace, t)" for codespace t
    unfolding S that using after[of codespace]
    by (cases "rest codespace") (simp add: andThen_def between_def)
  show ?thesis
  proof (cases "io_CanPrompt a")
    case False
    then have "\<exists>t. h = (Inl SilentError, t) \<and> filter is_CreateCodespace t = []"
      by (simp add: h_def handleAdditionalPermissions_def between_def)
    with fail False show ?thesis by auto
  next
    case True
    obtain ra ta where ask: "ask_Select a ''accept'' ''What would you like to do?'' choices = (ra, ta)"
      by force
    have ta: "ta = [?q]"
      using ask_Select_events[of a "''accept''" "''What would you like to do?''" choices] ask by simp
    have H: "h = between [?p1]
        (andThen (wrapErr ''error getting answers: %w'' (ra, ta))
            (\<lambda>answer.
               if answer = 0 then
                 between
                   [Fprintln ErrOut [''Please re-run the create request after accepting permissions in the browser.''],
                    Browse url]
                   (case browser_Browse a url of
                      Some err \<Rightarrow> (Inl (Wrapf ''error opening browser: %w'' [] err), [])
                    | None \<Rightarrow> (Inl SilentError, []))
                   []
               else
                 wrapErr ''error creating codespace: %w'' (call_CreateCodespace a (params\<lparr>PermissionsOptOut := True\<rparr>)))) []"
      using True by (simp add: h_def handleAdditionalPermissions_def ask[unfolded assms(4)])
    have one: "ra = Inr 1" if "hasTTY a" "survey_Select a ''accept'' ''What would you like to do?'' choices = Inr 1"
      using that ask by (simp add: ask_Select_def assms(4))
    show ?thesis
    proof (cases ra)
      case (Inl e)
      then have "h = (Inl (Wrapf ''error getting answers: %w'' [] e), [?p1, ?q])"
        by (simp add: H ta andThen_def wrapErr_def between_def)
      from fail[OF this] True Inl one show ?thesis by auto
    next
      case (Inr answer)
      show ?thesis
      proof (cases "answer = 0")
        case zero: True
        then have "\<exists>e. h = (Inl e, [?p1, ?q,
            Fprintln ErrOut [''Please re-run the create request after accepting permissions in the browser.''],
            Browse url])"
          by (cases "browser_Browse a url") (simp_all add: H ta Inr andThen_def wrapErr_def between_def)
        then obtain e where "h = (Inl e, [?p1, ?q,
            Fprintln ErrOut [''Please re-run the create request after accepting permissions in the browser.''],
            Browse url])" by blast
        from fail[OF this] True Inr zero one show ?thesis by auto
      next
        case nz: False
        let ?tr = "[StartProgressIndicatorWithLabel ''Creating codespace'',
                    Call_CreateCodespace (params\<lparr>PermissionsOptOut := True\<rparr>), StopProgressIndicator]"
        have cr: "call_CreateCodespace a (params\<lparr>PermissionsOptOut := True\<rparr>) = (CreateCodespace (apiClient a) (params\<lparr>PermissionsOptOut := True\<rparr>), ?tr)"
          by (simp add: call_CreateCodespace_def between_def)
        show ?thesis
        proof (cases "CreateCodespace (apiClient a) (params\<lparr>PermissionsOptOut := True\<rparr>)")
          case (Inl err2)
          have "h = (Inl (Wrapf ''error creating codespace: %w'' [] err2), [?p1, ?q] @ ?tr)"
            using nz by (simp add: H ta Inr cr Inl andThen_def wrapErr_def between_def)
          from fail[OF this] True Inl show ?thesis by auto
        next
          case ok: (Inr codespace)
          have "h = (Inr codespace, [?p1, ?q] @ ?tr)"
            using nz by (simp add: H ta Inr cr ok andThen_def wrapErr_def between_def)
          from pass[OF this] True ok show ?thesis by auto
        qed
      qed
    qed
  qed
qed

lemma testing_resolve:
  assumes "repo opts = ''monalisa/Spoon-Knife''" and "branch opts = []" and "location opts = []"
    and "devContainerPath opts = []"
  shows "Create_resolve (testingCreateApp ms create) opts =
     (Inr (\<lparr>ID = 1, DefaultBranch = ''main''\<rparr>, ''main'', [], []),
      [StartProgressIndicatorWithLabel ''Fetching repository'',
       Call_GetRepository ''monalisa/Spoon-Knife'', StopProgressIndicator,
       StartProgressIndicatorWithLabel ''Validating repository for codespaces'',
       Call_GetCodespaceBillableOwner ''monalisa/Spoon-Knife'', StopProgressIndicator,
       StartProgressIndicatorWithLabel ''Fetching devcontainer.json files'',
       Call_ListDevContainers 1 ''main'' 100, StopProgressIndicator])"
  using assms
  by (simp add: Create_resolve_def Create_devcontainer_def testingCreateApp_def testingApp_def
      apiClientMock_def andThen_def wrapErr_def between_def Let_def DEVCONTAINER_PROMPT_DEFAULT_def)

text \<open>
  The machine stage at work: a machine name that is not offered, and a single machine.
\<close>

theorem machine_stage_witness:
  "Create (testingCreateApp [basicLinux, standardLinux] createNeedsPermissions)
          (testingCreateOptions\<lparr>machine := ''bogus''\<rparr>)
   = (Inl (Wrapf ''error getting machine type: %w'' []
             (Errorf ''there is no such machine for the repository: %s\<newline>Available machines: %v''
                [''bogus'', ''[basicLinux32gb standardLinux32gb]''])),
      [StartProgressIndicatorWithLabel ''Fetching repository'',
       Call_GetRepository ''monalisa/Spoon-Knife'', StopProgressIndicator,
       StartProgressIndicatorWithLabel ''Validating repository for codespaces'',
       Call_GetCodespaceBillableOwner ''monalisa/Spoon-Knife'', StopProgressIndicator,
       StartProgressIndicatorWithLabel ''Fetching devcontainer.json files'',
       Call_ListDevContainers 1 ''main'' 100, StopProgressIndicator,
       Call_GetCodespacesMachines 1 ''main'' [] []])
   \<and> getMachineName (testingCreateApp [standardLinux] createNeedsPermissions) 1 [] ''main'' [] []
       = (Inr ''standardLinux32gb'', [Call_GetCodespacesMachines 1 ''main'' [] []])"
proof -
  let ?o = "testingCreateOptions\<lparr>machine := ''bogus''\<rparr>"
  have r: "Create_resolve (testingCreateApp ms createNeedsPermissions) ?o =
     (Inr (\<lparr>ID = 1, DefaultBranch = ''main''\<rparr>, ''main'', [], []),
      [StartProgressIndicatorWithLabel ''Fetching repository'',
       Call_GetRepository ''monalisa/Spoon-Knife'', StopProgressIndicator,
       StartProgressIndicatorWithLabel ''Validating repository for codespaces'',
       Call_GetCodespaceBillableOwner ''monalisa/Spoon-Knife'', StopProgressIndicator,
       StartProgressIndicatorWithLabel ''Fetching devcontainer.json files'',
       Call_ListDevContainers 1 ''main'' 100, StopProgressIndicator])" for ms
    by (rule testing_resolve) (simp_all add: testingCreateOptions_def)
  have r1: "Create_resolve (testingCreateApp ms createNeedsPermissions) testingCreateOptions =
     (Inr (\<lparr>ID = 1, DefaultBranch = ''main''\<rparr>, ''main'', [], []),
      [StartProgressIndicatorWithLabel ''Fetching repository'',
       Call_GetRepository ''monalisa/Spoon-Knife'', StopProgressIndicator,
       StartProgressIndicatorWithLabel ''Validating repository for codespaces'',
       Call_GetCodespaceBillableOwner ''monalisa/Spoon-Knife'', StopProgressIndicator,
       StartProgressIndicatorWithLabel ''Fetching devcontainer.json files'',
       Call_ListDevContainers 1 ''main'' 100, StopProgressIndicator])" for ms
    by (rule testing_resolve) (simp_all add: testingCreateOptions_def)
  have m: "GetCodespacesMachines (apiClient (testingCreateApp ms createNeedsPermissions))
             (ID \<lparr>ID = 1, DefaultBranch = ''main''\<rparr>) ''main'' [] [] = Inr ms" for ms
    by (simp add: testingCreateApp_def testingApp_def apiClientMock_def)
  from machine_stage[OF r m refl, of "[basicLinux, standardLinux]"]
       machine_stage[OF r1 m refl, of "[standardLinux]"]
  show ?thesis
    by (simp add: testingCreateOptions_def basicLinux_def standardLinux_def fmt_v_strings_def)
qed

text \<open>
  C5. When the stages of \<^verbatim>\<open>Create\<close> up to the machine have succeeded and the create
  request fails with the permissions-required signal carrying an authorization URL:
  in non-interactive mode \<^verbatim>\<open>Create\<close> returns the silent-failure sentinel and its
  run contains the one create request only; in interactive mode the run contains
  either that one request or that request followed by one more, which is the same
  request with the permissions opt-out set; the retry is made when the user chooses to
  continue without the permissions; and when the retried request fails as well,
  \<^verbatim>\<open>Create\<close> returns that failure wrapped as an ordinary error, never the sentinel.
\<close>

theorem permissions_required_flow:
  assumes "Create_resolve a opts = (Inr resolved, t0)"
    and "Create_machine a opts resolved = (Inr params, t1)"
    and "CreateCodespace (apiClient a) params = Inl err"
    and "errors_As_AcceptPermissionsRequiredError err = Some url" and "url \<noteq> []"
    and "choices = [''Continue in browser to review and authorize additional permissions (Recommended)'',
                    ''Continue without authorizing additional permissions'']"
  shows "(\<not> io_CanPrompt a \<longrightarrow>
            fst (Create a opts) = Inl SilentError \<and>
            filter is_CreateCodespace (snd (Create a opts)) = [Call_CreateCodespace params])
       \<and> (io_CanPrompt a \<longrightarrow>
            filter is_CreateCodespace (snd (Create a opts)) = [Call_CreateCodespace params] \<or>
            filter is_CreateCodespace (snd (Create a opts)) =
              [Call_CreateCodespace params,
               Call_CreateCodespace (params\<lparr>PermissionsOptOut := True\<rparr>)])
       \<and> (io_CanPrompt a \<and> hasTTY a \<and>
          survey_Select a ''accept'' ''What would you like to do?'' choices = Inr 1 \<longrightarrow>
            filter is_CreateCodespace (snd (Create a opts)) =
              [Call_CreateCodespace params,
               Call_CreateCodespace (params\<lparr>PermissionsOptOut := True\<rparr>)])
       \<and> (\<forall>err2. filter is_CreateCodespace (snd (Create a opts)) =
                   [Call_CreateCodespace params,
                    Call_CreateCodespace (params\<lparr>PermissionsOptOut := True\<rparr>)] \<and>
                 CreateCodespace (apiClient a) (params\<lparr>PermissionsOptOut := True\<rparr>) = Inl err2 \<longrightarrow>
                   fst (Create a opts) = Inl (Wrapf ''error creating codespace: %w'' [] err2) \<and>
                   fst (Create a opts) \<noteq> Inl SilentError)"
proof -
  have t0: "filter is_CreateCodespace t0 = []"
    using Create_resolve_no_create[of a opts] assms(1) by (simp add: filter_none)
  have t1: "filter is_CreateCodespace t1 = []"
    using Create_machine_no_create[of a opts resolved] assms(2) by (simp add: filter_none)
  from Create_unfold[OF assms(1,2)]
  have C: "fst (Create a opts) = fst (Create_submit a opts params)"
          "filter is_CreateCodespace (snd (Create a opts)) =
           filter is_CreateCodespace (snd (Create_submit a opts params))"
    by (simp_all add: t0 t1)
  from Create_submit_permissions[OF assms(3,4,5,6), of opts]
  show ?thesis unfolding C by auto
qed

theorem permissions_required_flow_witness:
  "Create (testingCreateApp [standardLinux] createNeedsPermissions) testingCreateOptions
   = (Inl SilentError,
      [StartProgressIndicatorWithLabel ''Fetching repository'',
       Call_GetRepository ''monalisa/Spoon-Knife'', StopProgressIndicator,
       StartProgressIndicatorWithLabel ''Validating repository for codespaces'',
       Call_GetCodespaceBillableOwner ''monalisa/Spoon-Knife'', StopProgressIndicator,
       StartProgressIndicatorWithLabel ''Fetching devcontainer.json files'',
       Call_ListDevContainers 1 ''main'' 100, StopProgressIndicator,
       Call_GetCodespacesMachines 1 ''main'' [] [],
       StartProgressIndicatorWithLabel ''Creating codespace'',
       Call_CreateCodespace
         \<lparr>RepositoryID = 1, Branch = ''main'', Machine = ''standardLinux32gb'', Location = [],
          VSCSTarget = [], VSCSTargetURL = [], IdleTimeoutMinutes = 0,
          RetentionPeriodMinutes = None, DevContainerPath = [], PermissionsOptOut = False\<rparr>,
       StopProgressIndicator,
       Fprintf ErrOut ''You must authorize or deny additional permissions requested by this codespace before continuing.\<newline>'' [],
       Fprintf ErrOut ''%s in your browser to review and authorize additional permissions: %s\<newline>''
         [Str ''Open this URL'', Str ''https://example.com/permissions''],
       Fprintf ErrOut ''Alternatively, you can run %q with the %q option to continue without authorizing additional permissions.\<newline>''
         [Str ''create'', Str ''--default-permissions'']])
   \<and> fst (Create (answering 1 (testingCreateApp [standardLinux] createNeedsPermissions))
              testingCreateOptions)
     = Inl (Wrapf ''error creating codespace: %w'' [] (Opaque ''HTTP 500''))"
proof -
  let ?a = "testingCreateApp [standardLinux] createNeedsPermissions"
  let ?b = "answering 1 ?a"
  let ?p = "\<lparr>RepositoryID = 1, Branch = ''main'', Machine = ''standardLinux32gb'', Location = [],
          VSCSTarget = [], VSCSTargetURL = [], IdleTimeoutMinutes = 0,
          RetentionPeriodMinutes = None, DevContainerPath = [], PermissionsOptOut = False\<rparr>"
  let ?t0 = "[StartProgressIndicatorWithLabel ''Fetching repository'',
       Call_GetRepository ''monalisa/Spoon-Knife'', StopProgressIndicator,
       StartProgressIndicatorWithLabel ''Validating repository for codespaces'',
       Call_GetCodespaceBillableOwner ''monalisa/Spoon-Knife'', StopProgressIndicator,
       StartProgressIndicatorWithLabel ''Fetching devcontainer.json files'',
       Call_ListDevContainers 1 ''main'' 100, StopProgressIndicator]"
  have ra: "Create_resolve ?a testingCreateOptions =
     (Inr (\<lparr>ID = 1, DefaultBranch = ''main''\<rparr>, ''main'', [], []), ?t0)"
    by (rule testing_resolve) (simp_all add: testingCreateOptions_def)
  have rb: "Create_resolve ?b testingCreateOptions =
     (Inr (\<lparr>ID = 1, DefaultBranch = ''main''\<rparr>, ''main'', [], []), ?t0)"
    by (simp add: Create_resolve_def Create_devcontainer_def testingCreateApp_def answering_def testingApp_def
      apiClientMock_def andThen_def wrapErr_def between_def Let_def DEVCONTAINER_PROMPT_DEFAULT_def
      testingCreateOptions_def)
  have ma: "Create_machine ?a testingCreateOptions (\<lparr>ID = 1, DefaultBranch = ''main''\<rparr>, ''main'', [], [])
     = (Inr ?p, [Call_GetCodespacesMachines 1 ''main'' [] []])"
    by (simp add: Create_machine_def getMachineName_def call_GetCodespacesMachines_def
        testingCreateApp_def answering_def testingApp_def apiClientMock_def standardLinux_def
        testingCreateOptions_def andThen_def wrapErr_def)
  have mb: "Create_machine ?b testingCreateOptions (\<lparr>ID = 1, DefaultBranch = ''main''\<rparr>, ''main'', [], [])
     = (Inr ?p, [Call_GetCodespacesMachines 1 ''main'' [] []])"
    by (simp add: Create_machine_def getMachineName_def call_GetCodespacesMachines_def
        testingCreateApp_def answering_def testingApp_def apiClientMock_def standardLinux_def
        testingCreateOptions_def andThen_def wrapErr_def)
  have ca: "CreateCodespace (apiClient ?a) ?p = Inl (AcceptPermissionsRequiredError ''https://example.com/permissions'')"
    by (simp add: testingCreateApp_def answering_def testingApp_def apiClientMock_def createNeedsPermissions_def)
  have cb: "CreateCodespace (apiClient ?b) ?p = Inl (AcceptPermissionsRequiredError ''https://example.com/permissions'')"
    by (simp add: testingCreateApp_def answering_def testingApp_def apiClientMock_def createNeedsPermissions_def)
  have cb2: "CreateCodespace (apiClient ?b) (?p\<lparr>PermissionsOptOut := True\<rparr>) = Inl (Opaque ''HTTP 500'')"
    by (simp add: testingCreateApp_def answering_def testingApp_def apiClientMock_def createNeedsPermissions_def)
  have fa: "fst (Create ?a testingCreateOptions) = Inl SilentError"
    using permissions_required_flow[OF ra ma ca _ _ refl]
    by (simp add: testingCreateApp_def answering_def testingApp_def)
  have fb: "fst (Create ?b testingCreateOptions) = Inl (Wrapf ''error creating codespace: %w'' [] (Opaque ''HTTP 500''))"
    using permissions_required_flow[OF rb mb cb _ _ refl] cb2
    by (simp add: testingCreateApp_def answering_def testingApp_def)
  have sa: "snd (Create ?a testingCreateOptions) = ?t0 @ [Call_GetCodespacesMachines 1 ''main'' [] []]
      @ snd (Create_submit ?a testingCreateOptions ?p)"
    using Create_unfold[OF ra ma] by simp
  have ss: "snd (Create_submit ?a testingCreateOptions ?p) =
      [StartProgressIndicatorWithLabel ''Creating codespace'',
       Call_CreateCodespace ?p,
       StopProgressIndicator,
       Fprintf ErrOut ''You must authorize or deny additional permissions requested by this codespace before continuing.\<newline>'' [],
       Fprintf ErrOut ''%s in your browser to review and authorize additional permissions: %s\<newline>''
         [Str ''Open this URL'', Str ''https://example.com/permissions''],
       Fprintf ErrOut ''Alternatively, you can run %q with the %q option to continue without authorizing additional permissions.\<newline>''
         [Str ''create'', Str ''--default-permissions'']]"
    by (simp add: Create_submit_def call_CreateCodespace_def handleAdditionalPermissions_def
        testingCreateApp_def answering_def testingApp_def apiClientMock_def createNeedsPermissions_def
        andThen_def between_def)
  from fa fb sa ss show ?thesis
    by (cases "Create ?a testingCreateOptions") simp
qed

end
